theory Spec2Isabelle
  imports Complex_Main "HOL-Library.Sublist"
begin

section \<open>DOM vocabulary shared by the three scripts\<close>

text \<open>
  An element's \<^verbatim>\<open>classList\<close> is the set of its class tokens: \<^verbatim>\<open>contains\<close> tests
  membership, \<^verbatim>\<open>remove\<close> takes a token out, and \<^verbatim>\<open>toggle\<close> with one argument flips
  its membership.
\<close>

type_synonym classList = "string set"

definition contains :: "classList \<Rightarrow> string \<Rightarrow> bool" where
  "contains cl c = (c \<in> cl)"

definition remove :: "string \<Rightarrow> classList \<Rightarrow> classList" where
  "remove c cl = cl - {c}"

definition toggle :: "string \<Rightarrow> classList \<Rightarrow> classList" where
  "toggle c cl = (if c \<in> cl then cl - {c} else insert c cl)"

text \<open>
  What a handler can do to the event it receives: \<^verbatim>\<open>preventDefault\<close> and
  \<^verbatim>\<open>stopPropagation\<close> set these two flags.
\<close>

record event =
  defaultPrevented :: bool
  propagationStopped :: bool

definition preventDefault :: "event \<Rightarrow> event" where
  "preventDefault e = e\<lparr>defaultPrevented := True\<rparr>"

definition stopPropagation :: "event \<Rightarrow> event" where
  "stopPropagation e = e\<lparr>propagationStopped := True\<rparr>"

definition fresh_event :: event where
  "fresh_event = \<lparr>defaultPrevented = False, propagationStopped = False\<rparr>"


section \<open>shop-category.js: the category dropdown\<close>

text \<open>
  The state the handlers of \<^verbatim>\<open>shop-category.js\<close> read and write: the class list of
  \<^verbatim>\<open>#categoryDropdownBtn\<close>, the class list of \<^verbatim>\<open>#categoryDropdownMenu\<close>, and the inline
  \<^verbatim>\<open>style.transform\<close> of the button's \<^verbatim>\<open>.dropdown-arrow\<close> child
  (\<open>None\<close> when \<^verbatim>\<open>querySelector\<close> finds no such child).
\<close>

record dropdown =
  btn :: classList
  menu :: classList
  arrow :: "string option"

text \<open>Lines 10-21: the click listener of the button.\<close>

definition btnClick :: "event \<times> dropdown \<Rightarrow> event \<times> dropdown" where
  "btnClick ed =
     (let e = preventDefault (stopPropagation (fst ed));
          d = snd ed;
          d1 = d\<lparr>btn := toggle ''active'' (btn d)\<rparr>;
          d2 = d1\<lparr>menu := toggle ''show'' (menu d1)\<rparr>
      in (e, case arrow d2 of
               None \<Rightarrow> d2
             | Some _ \<Rightarrow> d2\<lparr>arrow := Some (if contains (menu d2) ''show''
                                           then ''rotate(180deg)'' else ''rotate(0deg)'')\<rparr>))"

text \<open>
  Lines 24-34: the click listener of the document.  The two booleans are
  \<^verbatim>\<open>dropdownBtn.contains(e.target)\<close> and \<^verbatim>\<open>dropdownMenu.contains(e.target)\<close>.
\<close>

definition documentClick :: "bool \<Rightarrow> bool \<Rightarrow> dropdown \<Rightarrow> dropdown" where
  "documentClick inBtn inMenu d =
     (if \<not> inBtn \<and> \<not> inMenu then
        (let d1 = d\<lparr>btn := remove ''active'' (btn d)\<rparr>;
             d2 = d1\<lparr>menu := remove ''show'' (menu d1)\<rparr>
         in case arrow d2 of
              None \<Rightarrow> d2
            | Some _ \<Rightarrow> d2\<lparr>arrow := Some ''rotate(0deg)''\<rparr>)
      else d)"

text \<open>Lines 39-51: the click listener of every \<^verbatim>\<open>.dropdown-item\<close>.\<close>

definition itemClick :: "dropdown \<Rightarrow> dropdown" where
  "itemClick d =
     (let d1 = d\<lparr>btn := remove ''active'' (btn d)\<rparr>;
          d2 = d1\<lparr>menu := remove ''show'' (menu d1)\<rparr>
      in case arrow d2 of
           None \<Rightarrow> d2
         | Some _ \<Rightarrow> d2\<lparr>arrow := Some ''rotate(0deg)''\<rparr>)"

text \<open>Lines 55-65: the keydown listener of the document; the string is \<^verbatim>\<open>e.key\<close>.\<close>

definition documentKeydown :: "string \<Rightarrow> dropdown \<Rightarrow> dropdown" where
  "documentKeydown k d =
     (if k = ''Escape'' \<and> contains (menu d) ''show'' then
        (let d1 = d\<lparr>btn := remove ''active'' (btn d)\<rparr>;
             d2 = d1\<lparr>menu := remove ''show'' (menu d1)\<rparr>
         in case arrow d2 of
              None \<Rightarrow> d2
            | Some _ \<Rightarrow> d2\<lparr>arrow := Some ''rotate(0deg)''\<rparr>)
      else d)"



text \<open>The four handlers as one step function on the dropdown state.\<close>

datatype dropdown_event =
  ButtonClicked | DocumentClicked bool bool | ItemClicked | KeyPressed string

fun dropdown_step :: "dropdown_event \<Rightarrow> dropdown \<Rightarrow> dropdown" where
  "dropdown_step ButtonClicked d = snd (btnClick (fresh_event, d))"
| "dropdown_step (DocumentClicked inBtn inMenu) d = documentClick inBtn inMenu d"
| "dropdown_step ItemClicked d = itemClick d"
| "dropdown_step (KeyPressed k) d = documentKeydown k d"

text \<open>
  The button, the menu and the arrow agree: the button is \<^verbatim>\<open>active\<close> exactly when the
  menu is shown, and an arrow, when there is one, is rotated by 180 degrees exactly when
  the menu is shown.
\<close>

definition agree :: "dropdown \<Rightarrow> bool" where
  "agree d =
     ((contains (btn d) ''active'' = contains (menu d) ''show'') \<and>
      (case arrow d of
         None \<Rightarrow> True
       | Some t \<Rightarrow> (t = ''rotate(180deg)'') = contains (menu d) ''show''))"

text \<open>The dropdown of a freshly loaded page: no class set, no inline transform.\<close>

definition closed_dropdown :: dropdown where
  "closed_dropdown = \<lparr>btn = {}, menu = {}, arrow = Some ''''\<rparr>"


section \<open>JavaScript numbers and strings\<close>

text \<open>
  A JavaScript number is modelled as an exact value or \<open>NaN\<close>: indices are integers,
  pixel coordinates are reals (the rounding of IEEE doubles is not modelled).  A field
  that was never assigned is \<^verbatim>\<open>undefined\<close>, which every arithmetic operation and
  \<^verbatim>\<open>Math.min\<close>/\<^verbatim>\<open>Math.max\<close> convert to \<open>NaN\<close>; such a field holds \<open>NaN\<close> here.
  Every comparison with \<open>NaN\<close> is false.
\<close>

datatype 'a num = Num 'a | NaN

fun lift1 :: "('a \<Rightarrow> 'b) \<Rightarrow> 'a num \<Rightarrow> 'b num" where
  "lift1 f (Num a) = Num (f a)"
| "lift1 f NaN = NaN"

fun lift2 :: "('a \<Rightarrow> 'b \<Rightarrow> 'c) \<Rightarrow> 'a num \<Rightarrow> 'b num \<Rightarrow> 'c num" where
  "lift2 f (Num a) (Num b) = Num (f a b)"
| "lift2 f _ _ = NaN"

fun cmp :: "('a \<Rightarrow> 'b \<Rightarrow> bool) \<Rightarrow> 'a num \<Rightarrow> 'b num \<Rightarrow> bool" where
  "cmp r (Num a) (Num b) = r a b"
| "cmp r _ _ = False"

definition Math_min :: "int num \<Rightarrow> int num \<Rightarrow> int num" where
  "Math_min = lift2 min"

definition Math_max :: "int num \<Rightarrow> int num \<Rightarrow> int num" where
  "Math_max = lift2 max"

definition Math_abs :: "real num \<Rightarrow> real num" where
  "Math_abs = lift1 abs"

text \<open>\<^verbatim>\<open>a || b\<close> on numbers: \<open>a\<close> unless it is falsy (zero).\<close>

definition or_else :: "real \<Rightarrow> real \<Rightarrow> real" where
  "or_else a b = (if a \<noteq> 0 then a else b)"

text \<open>
  \<^verbatim>\<open>Array.prototype.slice(start, end)\<close>: a negative bound counts from the end, both
  bounds are clamped to the array, and a missing \<^verbatim>\<open>end\<close> is the length.
\<close>

definition relative_index :: "int \<Rightarrow> int \<Rightarrow> int" where
  "relative_index k len = (if k < 0 then max (len + k) 0 else min k len)"

definition slice :: "'a list \<Rightarrow> int \<Rightarrow> int option \<Rightarrow> 'a list" where
  "slice xs start finish =
     (let len = int (length xs);
          lo = relative_index start len;
          hi = (case finish of None \<Rightarrow> len | Some e \<Rightarrow> relative_index e len)
      in take (nat (hi - lo)) (drop (nat lo) xs))"

text \<open>\<^verbatim>\<open>String.prototype.startsWith\<close>, \<^verbatim>\<open>endsWith\<close>, \<^verbatim>\<open>includes\<close> and \<^verbatim>\<open>split\<close>.\<close>

definition startsWith :: "string \<Rightarrow> string \<Rightarrow> bool" where
  "startsWith s p = prefix p s"

definition endsWith :: "string \<Rightarrow> string \<Rightarrow> bool" where
  "endsWith s p = suffix p s"

fun includesStr :: "string \<Rightarrow> string \<Rightarrow> bool" where
  "includesStr [] p = (p = [])"
| "includesStr (c # cs) p = (prefix p (c # cs) \<or> includesStr cs p)"

text \<open>
  \<open>split_from sep k piece s\<close> scans \<open>s\<close>: \<open>k\<close> is the number of characters of a
  separator that was just recognised and is still to be skipped, \<open>piece\<close> the current
  piece, reversed.  \<open>split\<close> is \<^verbatim>\<open>s.split(sep)\<close> for a non-empty separator.
\<close>

fun split_from :: "string \<Rightarrow> nat \<Rightarrow> string \<Rightarrow> string \<Rightarrow> string list" where
  "split_from sep k piece [] = [rev piece]"
| "split_from sep (Suc k) piece (c # cs) = split_from sep k piece cs"
| "split_from sep 0 piece (c # cs) =
     (if prefix sep (c # cs) then rev piece # split_from sep (length sep - 1) [] cs
      else split_from sep 0 (c # piece) cs)"

definition split :: "string \<Rightarrow> string \<Rightarrow> string list" where
  "split s sep = split_from sep 0 [] s"

text \<open>
  \<^verbatim>\<open>'#' + pieces[1]\<close>: an index past the end reads \<^verbatim>\<open>undefined\<close>, which the string
  concatenation prints as \<^verbatim>\<open>undefined\<close>.
\<close>

definition hash_plus_second :: "string list \<Rightarrow> string" where
  "hash_plus_second pieces =
     ''#'' @ (case pieces of _ # x # _ \<Rightarrow> x | _ \<Rightarrow> ''undefined'')"


section \<open>The smooth-scroll script\<close>

text \<open>
  The script of \<^verbatim>\<open>src/unnamed/part_000\<close>.  Console logging (\<^verbatim>\<open>log\<close>) has no effect
  on the page and is left out.
\<close>

record scroll_config =
  offset :: real
  duration :: real
  easing :: string
  debug :: bool

definition config :: scroll_config where
  "config = \<lparr>offset = 80, duration = 800, easing = ''easeInOutQuad'', debug = True\<rparr>"

definition easeInOutQuad :: "real \<Rightarrow> real" where
  "easeInOutQuad t = (if t < 0.5 then 2 * t * t else - 1 + (4 - 2 * t) * t)"

definition easingFunctions :: "string \<rightharpoonup> (real \<Rightarrow> real)" where
  "easingFunctions =
     [''linear'' \<mapsto> (\<lambda>t. t),
      ''easeInQuad'' \<mapsto> (\<lambda>t. t * t),
      ''easeOutQuad'' \<mapsto> (\<lambda>t. t * (2 - t)),
      ''easeInOutQuad'' \<mapsto> easeInOutQuad,
      ''easeInCubic'' \<mapsto> (\<lambda>t. t * t * t),
      ''easeOutCubic'' \<mapsto> (\<lambda>t. (t - 1) * (t - 1) * (t - 1) + 1),
      ''easeInOutCubic'' \<mapsto> (\<lambda>t. if t < 0.5 then 4 * t * t * t
                                    else (t - 1) * (2 * t - 2) * (2 * t - 2) + 1)]"

text \<open>
  An element is known by the distance of its top edge from the top of the document.
  \<^verbatim>\<open>document.querySelector\<close> finds an element, finds none, or throws on a selector it
  cannot parse.
\<close>

datatype element = Element (docTop: real)

datatype query = Found element | NotFound | SyntaxError

text \<open>The browser calls the script makes, in order.\<close>

datatype call =
  ScrollTo real | PushState string | SetItem string string | RemoveItem string

text \<open>
  The page as the script sees it.  \<open>scrollY\<close> is the vertical scroll position (read
  as \<^verbatim>\<open>window.pageYOffset\<close> and as \<^verbatim>\<open>document.documentElement.scrollTop\<close>);
  \<^verbatim>\<open>window.scrollTo\<close> sets it to the position asked for (the browser's clamping to the
  document height is not modelled).  \<open>history\<close> lists the URLs pushed with
  \<^verbatim>\<open>pushState\<close>, oldest first.  \<open>sessionStorage\<close> is the only field that survives a
  navigation to another page.
\<close>

record page =
  pathname :: string
  scrollY :: real
  history :: "string list"
  sessionStorage :: "string \<rightharpoonup> string"
  querySelector :: "string \<Rightarrow> query"
  calls :: "call list"

definition scrollTo :: "real \<Rightarrow> page \<Rightarrow> page" where
  "scrollTo y p = p\<lparr>scrollY := y, calls := calls p @ [ScrollTo y]\<rparr>"

definition pushState :: "string \<Rightarrow> page \<Rightarrow> page" where
  "pushState url p = p\<lparr>history := history p @ [url], calls := calls p @ [PushState url]\<rparr>"

definition setItem :: "string \<Rightarrow> string \<Rightarrow> page \<Rightarrow> page" where
  "setItem k v p =
     p\<lparr>sessionStorage := (sessionStorage p)(k \<mapsto> v), calls := calls p @ [SetItem k v]\<rparr>"

definition removeItem :: "string \<Rightarrow> page \<Rightarrow> page" where
  "removeItem k p =
     p\<lparr>sessionStorage := (sessionStorage p)(k := None), calls := calls p @ [RemoveItem k]\<rparr>"

definition isHomePage :: "page \<Rightarrow> bool" where
  "isHomePage p =
     (endsWith (pathname p) ''index.html'' \<or> endsWith (pathname p) ''/'' \<or> pathname p = [])"

definition extractIdFromHref :: "string \<Rightarrow> string option" where
  "extractIdFromHref href =
     (if includesStr href ''index.html#'' then
        Some (hash_plus_second (split href ''index.html#''))
      else if includesStr href ''./index.html#'' then
        Some (hash_plus_second (split href ''./index.html#''))
      else if startsWith href ''#'' then Some href
      else None)"

text \<open>The argument is \<open>None\<close> for \<^verbatim>\<open>null\<close>.\<close>

definition getTargetElement :: "page \<Rightarrow> string option \<Rightarrow> element option" where
  "getTargetElement p hash =
     (case hash of
        None \<Rightarrow> None
      | Some h \<Rightarrow>
          if h = [] \<or> h = ''#'' then None
          else (case querySelector p h of
                  Found target \<Rightarrow> Some target
                | NotFound \<Rightarrow> None
                | SyntaxError \<Rightarrow> None))"

text \<open>\<^verbatim>\<open>getBoundingClientRect().top\<close> is relative to the viewport.\<close>

definition getTargetPosition :: "scroll_config \<Rightarrow> page \<Rightarrow> element \<Rightarrow> real" where
  "getTargetPosition cfg p target =
     (let rect_top = docTop target - scrollY p;
          scrollTop = or_else (scrollY p) (scrollY p)
      in rect_top + scrollTop - offset cfg)"

text \<open>
  The frame callback of \<^verbatim>\<open>animateScroll\<close>, run on the timestamps the browser passes to
  the successive animation frames.  The result says whether the promise was resolved;
  it is still pending when the browser has delivered no frame past the duration.
\<close>

fun animation ::
  "scroll_config \<Rightarrow> (real \<Rightarrow> real) \<Rightarrow> real \<Rightarrow> real \<Rightarrow> real \<Rightarrow> real \<Rightarrow> real list \<Rightarrow> page
     \<Rightarrow> page \<times> bool" where
  "animation cfg ease startPosition distance startTime targetPosition [] p = (p, False)"
| "animation cfg ease startPosition distance startTime targetPosition (currentTime # later) p =
     (let timeElapsed = currentTime - startTime;
          progress = min (timeElapsed / duration cfg) 1;
          p1 = scrollTo (startPosition + distance * ease progress) p
      in if timeElapsed < duration cfg
         then animation cfg ease startPosition distance startTime targetPosition later p1
         else (scrollTo targetPosition p1, True))"

text \<open>
  \<open>now\<close> is the value of \<^verbatim>\<open>performance.now()\<close> when the animation starts, \<open>frames\<close>
  the timestamps of the animation frames that follow.
\<close>

definition animateScroll ::
  "scroll_config \<Rightarrow> real \<Rightarrow> real list \<Rightarrow> real \<Rightarrow> page \<Rightarrow> page \<times> bool" where
  "animateScroll cfg now frames targetPosition p =
     (let startPosition = or_else (scrollY p) (scrollY p);
          distance = targetPosition - startPosition;
          startTime = now;
          ease = (case easingFunctions (easing cfg) of
                    Some f \<Rightarrow> f
                  | None \<Rightarrow> easeInOutQuad)
      in if \<bar>distance\<bar> < 5 then (scrollTo targetPosition p, True)
         else animation cfg ease startPosition distance startTime targetPosition frames p)"

text \<open>
  \<^verbatim>\<open>animateScroll(targetPosition).then(() => history.pushState(null, null, url))\<close>, the
  tail of all three scrolling paths.
\<close>

definition scroll_then_push ::
  "scroll_config \<Rightarrow> real \<Rightarrow> real list \<Rightarrow> element \<Rightarrow> string \<Rightarrow> page \<Rightarrow> page" where
  "scroll_then_push cfg now frames target url p =
     (let targetPosition = getTargetPosition cfg p target;
          (p1, resolved) = animateScroll cfg now frames targetPosition p
      in if resolved then pushState url p1 else p1)"

text \<open>
  Lines 121-167.  \<open>href_attr\<close> is the link's \<^verbatim>\<open>href\<close> attribute, \<open>None\<close> when the
  link has none.
\<close>

definition handleAnchorClick ::
  "scroll_config \<Rightarrow> real \<Rightarrow> real list \<Rightarrow> string option \<Rightarrow> event \<times> page \<Rightarrow> event \<times> page" where
  "handleAnchorClick cfg now frames href_attr ep =
     (let e = fst ep; p = snd ep in
      case href_attr of
        None \<Rightarrow> (e, p)
      | Some href \<Rightarrow>
          if href = [] then (e, p)
          else if startsWith href ''#'' \<and> href \<noteq> ''#'' then
            (preventDefault e,
             case getTargetElement p (Some href) of
               Some target \<Rightarrow> scroll_then_push cfg now frames target href p
             | None \<Rightarrow> p)
          else if includesStr href ''index.html#'' then
            (if isHomePage p then
               (preventDefault e,
                case extractIdFromHref href of
                  None \<Rightarrow> p
                | Some ident \<Rightarrow>
                    (case getTargetElement p (Some ident) of
                       Some target \<Rightarrow> scroll_then_push cfg now frames target ident p
                     | None \<Rightarrow> p))
             else
               (e,
                case extractIdFromHref href of
                  None \<Rightarrow> p
                | Some ident \<Rightarrow>
                    if ident \<noteq> [] then setItem ''scrollTarget'' ident p else p))
          else (e, p))"

text \<open>
  Lines 170-188, the part that runs at once: the result is the page and the target id
  captured by the 500 ms timer, \<open>None\<close> when no timer was set.
\<close>

definition checkStoredScrollTarget :: "page \<Rightarrow> page \<times> string option" where
  "checkStoredScrollTarget p =
     (case sessionStorage p ''scrollTarget'' of
        None \<Rightarrow> (p, None)
      | Some targetId \<Rightarrow>
          if targetId = [] then (p, None)
          else (removeItem ''scrollTarget'' p, Some targetId))"

text \<open>Lines 177-186: the callback of that timer.\<close>

definition storedTargetTimeout ::
  "scroll_config \<Rightarrow> real \<Rightarrow> real list \<Rightarrow> string \<Rightarrow> page \<Rightarrow> page" where
  "storedTargetTimeout cfg now frames targetId p =
     (case getTargetElement p (Some targetId) of
        Some target \<Rightarrow> scroll_then_push cfg now frames target targetId p
      | None \<Rightarrow> p)"

text \<open>A page load: the check, then the timer if one was set.\<close>

definition page_load :: "scroll_config \<Rightarrow> real \<Rightarrow> real list \<Rightarrow> page \<Rightarrow> page" where
  "page_load cfg now frames p =
     (case checkStoredScrollTarget p of
        (p1, None) \<Rightarrow> p1
      | (p1, Some targetId) \<Rightarrow> storedTargetTimeout cfg now frames targetId p1)"

text \<open>The animation runs to its end: it jumps, or a frame arrives at or after the duration.\<close>

definition completes :: "scroll_config \<Rightarrow> real \<Rightarrow> real list \<Rightarrow> real \<Rightarrow> page \<Rightarrow> bool" where
  "completes cfg now frames targetPosition p =
     (\<bar>targetPosition - scrollY p\<bar> < 5 \<or> (\<exists>t \<in> set frames. \<not> t - now < duration cfg))"

text \<open>
  Two concrete pages for the examples below: a shop page with a \<^verbatim>\<open>#contact\<close> section
  1000 pixels down, and the home page with a \<^verbatim>\<open>#shop\<close> section 1500 pixels down,
  loaded with a given session storage.
\<close>

definition shop_page :: page where
  "shop_page =
     \<lparr>pathname = ''/shop.html'', scrollY = 0, history = [], sessionStorage = Map.empty,
      querySelector = (\<lambda>sel. if sel = ''#contact'' then Found (Element 1000) else NotFound),
      calls = []\<rparr>"

definition home_page :: "(string \<rightharpoonup> string) \<Rightarrow> page" where
  "home_page storage =
     \<lparr>pathname = ''/index.html'', scrollY = 0, history = [], sessionStorage = storage,
      querySelector = (\<lambda>sel. if sel = ''#shop'' then Found (Element 1500) else NotFound),
      calls = []\<rparr>"


section \<open>slider.js: the card carousel\<close>

text \<open>
  A card of the wrapper is known by the number of the real card whose content it shows
  and by whether it carries the class \<^verbatim>\<open>clone\<close>.
\<close>

datatype card = Card (content: nat) (clone: bool)

text \<open>The timers of a slider: the callback and the delay in milliseconds.\<close>

datatype timer = InitPosition | LoopReset | AnimationEnd | GestureReset | AutoSlide

text \<open>
  The fields of a \<^verbatim>\<open>CardSlider\<close>, the options merged into \<^verbatim>\<open>this.options\<close>, and the
  part of the DOM the slider reads and writes: the \<^verbatim>\<open>.product-card\<close> children of the
  wrapper, the wrapper's inline \<^verbatim>\<open>transition\<close> and \<^verbatim>\<open>transform\<close> (the argument of
  \<^verbatim>\<open>translateX\<close> in pixels, \<open>None\<close> before the first write), its class \<^verbatim>\<open>dragging\<close>,
  and the \<^verbatim>\<open>active\<close> flags of the dots (\<open>None\<close> while \<^verbatim>\<open>this.dots\<close> is undefined).
  \<open>mouseListeners\<close> counts the pairs of \<^verbatim>\<open>mousemove\<close>/\<^verbatim>\<open>mouseup\<close> listeners that
  \<^verbatim>\<open>handleMouseDown\<close> has put on the document.
\<close>

record slider =
  cardsToShow :: int
  autoSlide :: bool
  slideInterval :: nat
  loop :: bool
  wrapper :: "card list"
  transition :: string
  transform :: "real num option"
  dragging :: bool
  prevArrow :: bool
  nextArrow :: bool
  dotsContainer :: bool
  dots :: "bool list option"
  totalRealCards :: int
  totalCards :: "int num"
  maxIndex :: "int num"
  cardFullWidth :: "real num"
  isDragging :: bool
  isHorizontalSwipe :: bool
  startX :: real
  startY :: real
  initialX :: real
  currentTranslate :: "real num"
  prevTranslate :: "real num"
  currentIndex :: "int num"
  isAnimating :: bool
  timers :: "(timer \<times> nat) list"
  mouseListeners :: nat

definition setTimeout :: "timer \<Rightarrow> nat \<Rightarrow> slider \<Rightarrow> slider" where
  "setTimeout t delay s = s\<lparr>timers := timers s @ [(t, delay)]\<rparr>"

definition clearTimeout :: "timer \<Rightarrow> slider \<Rightarrow> slider" where
  "clearTimeout t s = s\<lparr>timers := filter (\<lambda>x. fst x \<noteq> t) (timers s)\<rparr>"

text \<open>Lines 61-91.\<close>

definition setupInfiniteLoop :: "slider \<Rightarrow> slider" where
  "setupInfiniteLoop s =
     (let cards = wrapper s;
          s1 = s\<lparr>totalRealCards := int (length cards)\<rparr>
      in if totalRealCards s1 \<le> cardsToShow s1 then s1\<lparr>loop := False\<rparr>
         else
           (let cloneCount = min (totalRealCards s1) (cardsToShow s1);
                firstCards = map (\<lambda>c. Card (content c) (clone c)) (slice cards 0 (Some cloneCount));
                lastCards = map (\<lambda>c. Card (content c) (clone c)) (slice cards (- cloneCount) None);
                s2 = fold (\<lambda>c t. t\<lparr>wrapper := Card (content c) True # wrapper t\<rparr>) lastCards s1;
                s3 = fold (\<lambda>c t. t\<lparr>wrapper := wrapper t @ [Card (content c) True]\<rparr>) firstCards s2;
                s4 = s3\<lparr>totalCards := Num (int (length (wrapper s3)))\<rparr>
            in s4\<lparr>maxIndex := lift2 (-) (totalCards s4) (Num (cardsToShow s4))\<rparr>))"

text \<open>
  Lines 93-105.  \<open>measured\<close> is the sum the method computes from the layout of the
  first card: its offset width, its two margins and the wrapper's gap.
\<close>

definition calculateCardWidth :: "real num \<Rightarrow> slider \<Rightarrow> slider" where
  "calculateCardWidth measured s =
     (if wrapper s = [] then s else s\<lparr>cardFullWidth := measured\<rparr>)"

text \<open>Lines 107-120.\<close>

definition createDots :: "slider \<Rightarrow> slider" where
  "createDots s =
     (if \<not> dotsContainer s \<or> \<not> loop s then s
      else s\<lparr>dots := Some (map (\<lambda>i. i = 0) [0..<nat (totalRealCards s)])\<rparr>)"

text \<open>Lines 307-309.\<close>

definition setSliderPosition :: "slider \<Rightarrow> slider" where
  "setSliderPosition s = s\<lparr>transform := Some (currentTranslate s)\<rparr>"

text \<open>Lines 361-375.\<close>

definition updateDots :: "slider \<Rightarrow> slider" where
  "updateDots s =
     (case dots s of
        None \<Rightarrow> s
      | Some ds \<Rightarrow>
          if \<not> loop s then s
          else
            (let realIndex = lift2 (-) (currentIndex s) (Num (cardsToShow s));
                 realIndex' =
                   (if cmp (<) realIndex (Num 0)
                    then lift2 (+) (Num (totalRealCards s)) realIndex
                    else if cmp (\<ge>) realIndex (Num (totalRealCards s))
                    then lift2 (-) realIndex (Num (totalRealCards s))
                    else realIndex)
             in s\<lparr>dots := Some (map (\<lambda>i. cmp (=) (Num (int i)) realIndex') [0..<length ds])\<rparr>))"

text \<open>
  Lines 311-333: \<^verbatim>\<open>slideToIndex\<close> up to the call of \<^verbatim>\<open>setTimeout\<close>, which leaves the
  loop reset as a pending timer.
\<close>

definition slideToIndex :: "int num \<Rightarrow> bool \<Rightarrow> slider \<Rightarrow> slider" where
  "slideToIndex index0 animate s =
     (if isAnimating s then s
      else
        (let index = Math_max (Num 0) (Math_min index0 (maxIndex s));
             s1 = s\<lparr>transition := (if \<not> animate then ''none'' else ''transform 0.3s ease'')\<rparr>;
             s2 = s1\<lparr>currentIndex := index\<rparr>;
             s3 = s2\<lparr>currentTranslate :=
                      lift1 uminus (lift2 (\<lambda>i w. real_of_int i * w) index (cardFullWidth s2))\<rparr>;
             s4 = s3\<lparr>prevTranslate := currentTranslate s3\<rparr>;
             s5 = setSliderPosition (updateDots s4)
         in if loop s5 \<and> animate
            then setTimeout LoopReset 300 (s5\<lparr>isAnimating := True\<rparr>)
            else s5))"

text \<open>Lines 334-357: the callback of the loop-reset timer.\<close>

definition loopReset :: "slider \<Rightarrow> slider" where
  "loopReset s =
     (let c = cardsToShow s;
          s' =
            (if cmp (\<le>) (currentIndex s) (Num (c - 1)) then
               (let s1 = s\<lparr>transition := ''none''\<rparr>;
                    s2 = s1\<lparr>currentIndex :=
                           lift2 (-) (maxIndex s1) (lift2 (-) (Num (c - 1)) (currentIndex s1))\<rparr>;
                    s3 = s2\<lparr>currentTranslate :=
                           lift1 uminus
                             (lift2 (\<lambda>i w. real_of_int i * w) (currentIndex s2) (cardFullWidth s2))\<rparr>;
                    s4 = s3\<lparr>prevTranslate := currentTranslate s3\<rparr>
                in setSliderPosition s4)
             else if cmp (\<ge>) (currentIndex s) (lift2 (-) (maxIndex s) (Num (c - 1))) then
               (let s1 = s\<lparr>transition := ''none''\<rparr>;
                    s2 = s1\<lparr>currentIndex :=
                           lift2 (+)
                             (lift2 (-) (currentIndex s1) (lift2 (-) (maxIndex s1) (Num (c - 1))))
                             (Num (c - 1))\<rparr>;
                    s3 = s2\<lparr>currentTranslate :=
                           lift1 uminus
                             (lift2 (\<lambda>i w. real_of_int i * w) (currentIndex s2) (cardFullWidth s2))\<rparr>;
                    s4 = s3\<lparr>prevTranslate := currentTranslate s3\<rparr>
                in setSliderPosition s4)
             else s)
      in setTimeout AnimationEnd 50 s')"

text \<open>Lines 122-128, 184-192.\<close>

definition slideToRealIndex :: "int \<Rightarrow> slider \<Rightarrow> slider" where
  "slideToRealIndex realIndex s =
     (if loop s then slideToIndex (Num (realIndex + cardsToShow s)) True s
      else slideToIndex (Num realIndex) True s)"

definition slidePrev :: "slider \<Rightarrow> slider" where
  "slidePrev s =
     (if isAnimating s then s
      else slideToIndex (lift2 (-) (currentIndex s) (Num 1)) True s)"

definition slideNext :: "slider \<Rightarrow> slider" where
  "slideNext s =
     (if isAnimating s then s
      else slideToIndex (lift2 (+) (currentIndex s) (Num 1)) True s)"

text \<open>Lines 130-140.\<close>

definition forceResetGesture :: "slider \<Rightarrow> slider" where
  "forceResetGesture s =
     (let s1 = s\<lparr>isDragging := False, isHorizontalSwipe := False, isAnimating := False\<rparr>;
          s2 = clearTimeout GestureReset s1
      in s2\<lparr>dragging := False, transition := ''transform 0.3s ease''\<rparr>)"

text \<open>Lines 290-305.\<close>

definition dragEnd :: "slider \<Rightarrow> slider" where
  "dragEnd s =
     (let s1 = s\<lparr>transition := ''transform 0.3s ease''\<rparr>;
          movedBy = lift2 (-) (currentTranslate s1) (prevTranslate s1);
          threshold = lift2 (/) (cardFullWidth s1) (Num 3)
      in if cmp (>) (Math_abs movedBy) threshold then
           (let direction = (if cmp (<) movedBy (Num 0) then 1 else - 1)
            in slideToIndex (lift2 (+) (currentIndex s1) (Num direction)) True s1)
         else slideToIndex (currentIndex s1) True s1)"

text \<open>
  Lines 194-260: the touch listeners of the wrapper.  \<open>onControl\<close> is
  \<^verbatim>\<open>e.target.closest('a, button')\<close>, \<open>inWrapper\<close> is \<^verbatim>\<open>this.wrapper.contains(e.target)\<close>,
  \<open>touch\<close> the client coordinates of \<^verbatim>\<open>e.touches[0]\<close>.  The calls of
  \<^verbatim>\<open>e.preventDefault()\<close>, which only stop the page from scrolling, are left out.
\<close>

definition handleTouchStart :: "bool \<Rightarrow> real \<Rightarrow> real \<Rightarrow> slider \<Rightarrow> slider" where
  "handleTouchStart onControl clientX clientY s =
     (if onControl \<or> isAnimating s then s
      else
        (let s1 = clearTimeout GestureReset s;
             s2 = s1\<lparr>startX := clientX, startY := clientY\<rparr>;
             s3 = s2\<lparr>isDragging := False, isHorizontalSwipe := False\<rparr>;
             s4 = s3\<lparr>prevTranslate := currentTranslate s3\<rparr>;
             s5 = s4\<lparr>initialX := startX s4\<rparr>
         in s5\<lparr>transition := ''none''\<rparr>))"

definition handleTouchMove :: "bool \<Rightarrow> (real \<times> real) option \<Rightarrow> slider \<Rightarrow> slider" where
  "handleTouchMove inWrapper touch s =
     (if \<not> inWrapper \<or> isAnimating s then s
      else
        (case touch of
           None \<Rightarrow> s
         | Some (clientX, clientY) \<Rightarrow>
             (let diffX = clientX - startX s;
                  diffY = clientY - startY s;
                  LOCK_DISTANCE = 8;
                  drag = (\<lambda>t. if isDragging t
                              then setSliderPosition
                                     (t\<lparr>currentTranslate := lift2 (+) (prevTranslate t) (Num diffX)\<rparr>)
                              else t)
              in if \<not> isDragging s \<and> \<not> isHorizontalSwipe s then
                   (if \<bar>diffX\<bar> < LOCK_DISTANCE \<and> \<bar>diffY\<bar> < LOCK_DISTANCE then s
                    else if \<bar>diffX\<bar> > \<bar>diffY\<bar> then
                      drag (s\<lparr>isHorizontalSwipe := True, isDragging := True,
                              transition := ''none'', dragging := True\<rparr>)
                    else s)
                 else drag s)))"

definition handleTouchEnd :: "slider \<Rightarrow> slider" where
  "handleTouchEnd s =
     (let s1 = (if isDragging s \<and> \<not> isAnimating s then (dragEnd s)\<lparr>dragging := False\<rparr> else s);
          s2 = s1\<lparr>isDragging := False\<rparr>;
          s3 = clearTimeout GestureReset s2
      in setTimeout GestureReset 100 s3)"

text \<open>Lines 262-288: the mouse listeners.\<close>

definition handleMouseDown :: "bool \<Rightarrow> real \<Rightarrow> slider \<Rightarrow> slider" where
  "handleMouseDown onControl clientX s =
     (if onControl \<or> isAnimating s then s
      else
        (let s1 = s\<lparr>startX := clientX\<rparr>;
             s2 = s1\<lparr>prevTranslate := currentTranslate s1\<rparr>;
             s3 = s2\<lparr>isDragging := True, transition := ''none''\<rparr>
         in s3\<lparr>mouseListeners := Suc (mouseListeners s3)\<rparr>))"

definition move :: "real \<Rightarrow> slider \<Rightarrow> slider" where
  "move clientX s =
     (if isAnimating s then s
      else
        (let diffX = clientX - startX s
         in setSliderPosition (s\<lparr>currentTranslate := lift2 (+) (prevTranslate s) (Num diffX)\<rparr>)))"

definition up :: "slider \<Rightarrow> slider" where
  "up s =
     (let s1 = (if isDragging s \<and> \<not> isAnimating s then dragEnd s else s)
      in s1\<lparr>mouseListeners := mouseListeners s1 - 1\<rparr>)"

text \<open>Lines 377-387.\<close>

definition startAutoSlide :: "slider \<Rightarrow> slider" where
  "startAutoSlide s =
     (let s1 = clearTimeout AutoSlide s
      in if autoSlide s1 then setTimeout AutoSlide (slideInterval s1) s1 else s1)"

text \<open>
  A timer fires: it leaves the list of pending timers (the interval of the auto-slide
  stays) and its callback runs.  A timer that is not pending does not fire.
\<close>

fun remove_first :: "timer \<Rightarrow> (timer \<times> nat) list \<Rightarrow> (timer \<times> nat) list" where
  "remove_first t [] = []"
| "remove_first t (x # xs) = (if fst x = t then xs else x # remove_first t xs)"

definition fire :: "timer \<Rightarrow> slider \<Rightarrow> slider" where
  "fire t s =
     (if t \<notin> fst ` set (timers s) then s
      else
        (case t of
           InitPosition \<Rightarrow>
             (let s1 = s\<lparr>timers := remove_first t (timers s)\<rparr>;
                  s2 = s1\<lparr>currentIndex := Num (totalRealCards s1)\<rparr>
              in slideToIndex (currentIndex s2) False s2)
         | LoopReset \<Rightarrow> loopReset (s\<lparr>timers := remove_first t (timers s)\<rparr>)
         | AnimationEnd \<Rightarrow> s\<lparr>timers := remove_first t (timers s), isAnimating := False\<rparr>
         | GestureReset \<Rightarrow> s\<lparr>timers := remove_first t (timers s), isHorizontalSwipe := False\<rparr>
         | AutoSlide \<Rightarrow> (if \<not> isAnimating s then slideNext s else s)))"

text \<open>
  Lines 3-59: the constructor and \<^verbatim>\<open>init\<close>.  The container is \<open>None\<close> when
  \<^verbatim>\<open>getElementById\<close> finds none; it holds the product cards of its \<^verbatim>\<open>.cards-wrapper\<close>
  (\<open>None\<close> when it has no wrapper, in which case \<^verbatim>\<open>setupInfiniteLoop\<close> throws a
  \<^verbatim>\<open>TypeError\<close>), whether it has the two arrows, and whether its next sibling is a
  \<^verbatim>\<open>.slider-dots\<close> element.  The options given by the caller override the defaults.
  \<open>totalRealCards\<close> is undefined until \<^verbatim>\<open>setupInfiniteLoop\<close> assigns it, the first
  thing \<^verbatim>\<open>init\<close> does; the constructor's 0 stands for that.
\<close>

record container =
  cardsWrapper :: "card list option"
  hasPrevArrow :: bool
  hasNextArrow :: bool
  hasSliderDots :: bool

record slider_options =
  givenCardsToShow :: "int option"
  givenAutoSlide :: "bool option"
  givenSlideInterval :: "nat option"
  givenLoop :: "bool option"


definition init :: "real num \<Rightarrow> slider \<Rightarrow> slider" where
  "init measured s =
     (let s1 = setupInfiniteLoop s;
          s2 = calculateCardWidth measured s1;
          s3 = createDots s2;
          s4 = (if loop s3 then setTimeout InitPosition 10 s3 else s3)
      in if autoSlide s4 then startAutoSlide s4 else s4)"

definition constructor_fields :: "container \<Rightarrow> card list \<Rightarrow> slider_options \<Rightarrow> slider" where
  "constructor_fields c cards opts =
     \<lparr>cardsToShow = (case givenCardsToShow opts of None \<Rightarrow> 1 | Some n \<Rightarrow> n),
      autoSlide = (case givenAutoSlide opts of None \<Rightarrow> False | Some b \<Rightarrow> b),
      slideInterval = (case givenSlideInterval opts of None \<Rightarrow> 5000 | Some n \<Rightarrow> n),
      loop = (case givenLoop opts of None \<Rightarrow> True | Some b \<Rightarrow> b),
      wrapper = cards,
      transition = [],
      transform = None,
      dragging = False,
      prevArrow = hasPrevArrow c,
      nextArrow = hasNextArrow c,
      dotsContainer = hasSliderDots c,
      dots = None,
      totalRealCards = 0,
      totalCards = NaN,
      maxIndex = NaN,
      cardFullWidth = NaN,
      isDragging = False,
      isHorizontalSwipe = False,
      startX = 0,
      startY = 0,
      initialX = 0,
      currentTranslate = Num 0,
      prevTranslate = Num 0,
      currentIndex = Num 0,
      isAnimating = False,
      timers = [],
      mouseListeners = 0\<rparr>"


text \<open>
  The listeners that \<^verbatim>\<open>setupEventListeners\<close> and \<^verbatim>\<open>createDots\<close> attach (lines 142-182
  and 115), as one step function on the events of the page.  A touch or mouse event
  whose target is inside the wrapper reaches the wrapper's listener and then the
  document's.
\<close>

datatype slider_event =
    TouchStart bool bool real real
  | TouchMove bool "(real \<times> real) option"
  | TouchEnd bool
  | MouseDown bool bool real
  | MouseMove real
  | MouseUp
  | PrevClick
  | NextClick
  | DotClick nat
  | Resize "real num"
  | Timeout timer

fun slider_step :: "slider_event \<Rightarrow> slider \<Rightarrow> slider" where
  "slider_step (TouchStart inWrapper onControl x y) s =
     (if inWrapper then handleTouchStart onControl x y s else forceResetGesture s)"
| "slider_step (TouchMove inWrapper touch) s =
     (if inWrapper then handleTouchMove inWrapper touch s else forceResetGesture s)"
| "slider_step (TouchEnd inWrapper) s =
     forceResetGesture (if inWrapper then handleTouchEnd s else s)"
| "slider_step (MouseDown inWrapper onControl x) s =
     (if inWrapper then handleMouseDown onControl x s else forceResetGesture s)"
| "slider_step (MouseMove x) s = (move x ^^ mouseListeners s) s"
| "slider_step MouseUp s = (up ^^ mouseListeners s) s"
| "slider_step PrevClick s = (if prevArrow s then slidePrev s else s)"
| "slider_step NextClick s = (if nextArrow s then slideNext s else s)"
| "slider_step (DotClick i) s =
     (case dots s of
        None \<Rightarrow> s
      | Some ds \<Rightarrow> if i < length ds then slideToRealIndex (int i) s else s)"
| "slider_step (Resize measured) s =
     (let s1 = calculateCardWidth measured s in slideToIndex (currentIndex s1) False s1)"
| "slider_step (Timeout t) s = fire t s"

fun run :: "slider_event list \<Rightarrow> slider \<Rightarrow> slider" where
  "run [] s = s"
| "run (ev # evs) s = run evs (slider_step ev s)"

text \<open>
  What the viewport shows: the row of cards is shifted left by \<open>currentIndex\<close> card
  widths, so the cards at the positions \<open>currentIndex\<close>, ..., \<open>currentIndex +
  cardsToShow - 1\<close> of the wrapper are visible.  The result lists the real cards whose
  content is on screen.
\<close>

definition visible :: "slider \<Rightarrow> nat list" where
  "visible s =
     (case currentIndex s of
        NaN \<Rightarrow> []
      | Num i \<Rightarrow> map content (take (nat (cardsToShow s)) (drop (nat i) (wrapper s))))"

text \<open>The dots that carry the class \<^verbatim>\<open>active\<close>.\<close>

definition active_dots :: "slider \<Rightarrow> nat list" where
  "active_dots s =
     (case dots s of None \<Rightarrow> [] | Some ds \<Rightarrow> filter (\<lambda>i. ds ! i) [0..<length ds])"

text \<open>
  A slider in loop mode, as \<^verbatim>\<open>setupInfiniteLoop\<close> leaves it when there are more real
  cards than cards to show: \<^verbatim>\<open>cloneCount\<close> is \<^verbatim>\<open>cardsToShow\<close> and \<^verbatim>\<open>maxIndex\<close> is
  \<^verbatim>\<open>totalRealCards + cardsToShow\<close>.
\<close>

definition loop_mode :: "slider \<Rightarrow> bool" where
  "loop_mode s =
     (1 \<le> cardsToShow s \<and> cardsToShow s < totalRealCards s \<and>
      maxIndex s = Num (totalRealCards s + cardsToShow s))"

text \<open>
  The slide invariant: \<open>currentIndex\<close> lies within \<open>[0, maxIndex]\<close>, and both
  translates are \<open>-(currentIndex * cardFullWidth)\<close>.
\<close>

definition slide_inv :: "slider \<Rightarrow> bool" where
  "slide_inv s =
     (case (currentIndex s, maxIndex s, cardFullWidth s) of
        (Num i, Num m, Num w) \<Rightarrow>
          0 \<le> i \<and> i \<le> m \<and>
          currentTranslate s = Num (- (real_of_int i * w)) \<and>
          prevTranslate s = Num (- (real_of_int i * w))
      | _ \<Rightarrow> False)"

text \<open>
  A slider of three real cards, one card shown at a time, each card 300 pixels wide,
  with arrows and dots, as the \<^verbatim>\<open>DOMContentLoaded\<close> listener of lines 390-401 builds it
  (\<^verbatim>\<open>loop: true, cardsToShow: 1, autoSlide: false\<close>); and the same slider once the timer
  of \<^verbatim>\<open>init\<close> has fired.
\<close>

definition three_cards :: container where
  "three_cards =
     \<lparr>cardsWrapper = Some [Card 0 False, Card 1 False, Card 2 False],
      hasPrevArrow = True, hasNextArrow = True, hasSliderDots = True\<rparr>"

definition page_options :: slider_options where
  "page_options =
     \<lparr>givenCardsToShow = Some 1, givenAutoSlide = Some False,
      givenSlideInterval = None, givenLoop = Some True\<rparr>"

definition new_slider :: slider where
  "new_slider =
     init (Num 300) (constructor_fields three_cards [Card 0 False, Card 1 False, Card 2 False] page_options)"

definition ready_slider :: slider where
  "ready_slider = fire InitPosition new_slider"

text \<open>
  Three states reached from there: the slider resting on the first real card (a click
  on the first dot, then the two timers of the animation); the events of one swipe to
  the left by 200 pixels; and the slider in the middle of a second such swipe, begun
  before the loop-reset timer of the first has fired.
\<close>

definition first_card_slider :: slider where
  "first_card_slider = run [DotClick 0, Timeout LoopReset, Timeout AnimationEnd] ready_slider"

definition swipe_left :: "slider_event list" where
  "swipe_left = [TouchStart True False 500 100, TouchMove True (Some (300, 105)), TouchEnd True]"

definition second_swipe :: slider where
  "second_swipe =
     run [TouchStart True False 500 100, TouchMove True (Some (300, 105))]
       (run swipe_left ready_slider)"



section \<open>Properties of the dropdown\<close>

lemma btnClick_fields:
  "btn (snd (btnClick (e, d))) = toggle ''active'' (btn d)"
  "menu (snd (btnClick (e, d))) = toggle ''show'' (menu d)"
  "arrow (snd (btnClick (e, d))) =
     (case arrow d of
        None \<Rightarrow> None
      | Some _ \<Rightarrow> Some (if ''show'' \<in> toggle ''show'' (menu d)
                        then ''rotate(180deg)'' else ''rotate(0deg)''))"
  by (simp_all add: btnClick_def Let_def contains_def split: option.splits)

lemma toggle_toggle: "toggle c (toggle c cl) = cl"
  by (auto simp: toggle_def)

lemma toggle_mem: "(c \<in> toggle c cl) = (c \<notin> cl)"
  by (simp add: toggle_def)

text \<open>
  C5, as stated, fails: on a freshly loaded page the arrow has no inline transform, and
  after two clicks on the button its transform is \<^verbatim>\<open>rotate(0deg)\<close>.
\<close>

theorem C5_two_clicks_counterexample:
  "snd (btnClick (fresh_event, snd (btnClick (fresh_event, closed_dropdown)))) \<noteq> closed_dropdown"
  by (simp add: btnClick_def closed_dropdown_def Let_def toggle_def contains_def
      fresh_event_def preventDefault_def stopPropagation_def)

text \<open>
  C5, amended: a click on the button toggles the button's \<^verbatim>\<open>active\<close> class and the
  menu's \<^verbatim>\<open>show\<close> class together and, when there is an arrow, sets its transform to
  \<^verbatim>\<open>rotate(180deg)\<close> exactly when the menu ends up shown (and to \<^verbatim>\<open>rotate(0deg)\<close>
  otherwise).  Two consecutive clicks restore both class lists; they restore the arrow
  when there is none or when its transform was already the one the handler writes for
  the menu's state, and any other transform is replaced by that one.
\<close>

theorem C5_button_click_toggles:
  "(let d1 = snd (btnClick (e1, d));
        d2 = snd (btnClick (e2, d1));
        written = (if contains (menu d) ''show'' then ''rotate(180deg)'' else ''rotate(0deg)'')
    in contains (btn d1) ''active'' = (\<not> contains (btn d) ''active'')
     \<and> contains (menu d1) ''show'' = (\<not> contains (menu d) ''show'')
     \<and> arrow d1 = (case arrow d of
                     None \<Rightarrow> None
                   | Some _ \<Rightarrow> Some (if contains (menu d1) ''show''
                                     then ''rotate(180deg)'' else ''rotate(0deg)''))
     \<and> btn d2 = btn d
     \<and> menu d2 = menu d
     \<and> arrow d2 = (case arrow d of None \<Rightarrow> None | Some _ \<Rightarrow> Some written)
     \<and> (d2 = d) = (arrow d = None \<or> arrow d = Some written))"
proof -
  define d1 where "d1 = snd (btnClick (e1, d))"
  define d2 where "d2 = snd (btnClick (e2, d1))"
  define written where
    "written = (if contains (menu d) ''show'' then ''rotate(180deg)'' else ''rotate(0deg)'')"
  have c1: "contains (btn d1) ''active'' = (\<not> contains (btn d) ''active'')"
    by (simp add: d1_def btnClick_fields contains_def toggle_mem)
  have c2: "contains (menu d1) ''show'' = (\<not> contains (menu d) ''show'')"
    by (simp add: d1_def btnClick_fields contains_def toggle_mem)
  have c3: "arrow d1 = (case arrow d of
                     None \<Rightarrow> None
                   | Some _ \<Rightarrow> Some (if contains (menu d1) ''show''
                                     then ''rotate(180deg)'' else ''rotate(0deg)''))"
    by (simp add: d1_def btnClick_fields contains_def split: option.splits)
  have b: "btn d2 = btn d"
    by (simp add: d2_def d1_def btnClick_fields toggle_toggle)
  have m: "menu d2 = menu d"
    by (simp add: d2_def d1_def btnClick_fields toggle_toggle)
  have a: "arrow d2 = (case arrow d of None \<Rightarrow> None | Some _ \<Rightarrow> Some written)"
    by (auto simp: d2_def d1_def written_def btnClick_fields toggle_toggle contains_def
        split: option.splits)
  have more: "dropdown.more d2 = dropdown.more d"
    by (simp add: d2_def d1_def btnClick_def Let_def split: option.splits)
  have "d2 = d" if "arrow d = None \<or> arrow d = Some written"
    using that a b m more by (cases "arrow d") (auto intro: dropdown.equality)
  moreover have "arrow d = None \<or> arrow d = Some written" if "d2 = d"
    using that a by (cases "arrow d") auto
  ultimately have r: "(d2 = d) = (arrow d = None \<or> arrow d = Some written)"
    by blast
  from c1 c2 c3 b m a r show ?thesis
    unfolding Let_def d1_def d2_def written_def by blast
qed

theorem C5_button_click_toggles_witness:
  "snd (btnClick (fresh_event, snd (btnClick (fresh_event,
      \<lparr>btn = {''dropdown-btn''}, menu = {''dropdown-menu''}, arrow = Some ''rotate(0deg)''\<rparr>))))
   = \<lparr>btn = {''dropdown-btn''}, menu = {''dropdown-menu''}, arrow = Some ''rotate(0deg)''\<rparr>
   \<and> arrow (snd (btnClick (fresh_event,
      \<lparr>btn = {''dropdown-btn''}, menu = {''dropdown-menu''}, arrow = Some ''rotate(0deg)''\<rparr>)))
     = Some ''rotate(180deg)''"
  using C5_button_click_toggles [of fresh_event "\<lparr>btn = {''dropdown-btn''},
            menu = {''dropdown-menu''}, arrow = Some ''rotate(0deg)''\<rparr>" fresh_event]
  by (simp add: Let_def contains_def btnClick_fields toggle_def)

text \<open>
  C9: if the button's \<^verbatim>\<open>active\<close> class, the menu's \<^verbatim>\<open>show\<close> class and the arrow
  rotation agree beforehand, they agree after any of the four handlers has run: the
  button has \<^verbatim>\<open>active\<close> if and only if the menu has \<^verbatim>\<open>show\<close>, and an existing arrow
  has the transform \<^verbatim>\<open>rotate(180deg)\<close> exactly when the menu is shown.
\<close>

theorem C9_handlers_keep_agreement:
  assumes "agree d"
  shows "agree (dropdown_step ev d)"
proof (cases ev)
  case ButtonClicked
  with assms show ?thesis
    by (auto simp: agree_def btnClick_fields contains_def toggle_def split: option.splits)
next
  case (DocumentClicked inBtn inMenu)
  with assms show ?thesis
    by (auto simp: agree_def documentClick_def remove_def contains_def Let_def
        split: option.splits)
next
  case ItemClicked
  with assms show ?thesis
    by (auto simp: agree_def itemClick_def remove_def contains_def Let_def
        split: option.splits)
next
  case (KeyPressed k)
  with assms show ?thesis
    by (auto simp: agree_def documentKeydown_def remove_def contains_def Let_def
        split: option.splits)
qed

theorem C9_handlers_keep_agreement_witness:
  "agree closed_dropdown \<and> agree (dropdown_step ButtonClicked closed_dropdown)
   \<and> contains (menu (dropdown_step ButtonClicked closed_dropdown)) ''show''
   \<and> arrow (dropdown_step ButtonClicked closed_dropdown) = Some ''rotate(180deg)''"
proof -
  have h: "agree closed_dropdown"
    by (simp add: agree_def closed_dropdown_def contains_def)
  from C9_handlers_keep_agreement [OF h, of ButtonClicked] h show ?thesis
    by (simp add: btnClick_fields closed_dropdown_def contains_def toggle_def)
qed


section \<open>Properties of the smooth-scroll script\<close>

lemma scrollTo_fields:
  "scrollY (scrollTo y p) = y"
  "history (scrollTo y p) = history p"
  "sessionStorage (scrollTo y p) = sessionStorage p"
  "pathname (scrollTo y p) = pathname p"
  "querySelector (scrollTo y p) = querySelector p"
  "calls (scrollTo y p) = calls p @ [ScrollTo y]"
  by (simp_all add: scrollTo_def)

lemma animation_frame:
  "animation cfg ease sp d st tp ts p = (p', r) \<Longrightarrow>
     history p' = history p \<and> sessionStorage p' = sessionStorage p \<and>
     pathname p' = pathname p \<and> querySelector p' = querySelector p \<and>
     (\<exists>ys. calls p' = calls p @ map ScrollTo ys)"
proof (induction ts arbitrary: p)
  case Nil
  then show ?case by simp
next
  case (Cons t ts)
  let ?p1 = "scrollTo (sp + d * ease (min ((t - st) / duration cfg) 1)) p"
  show ?case
  proof (cases "t - st < duration cfg")
    case True
    with Cons.prems have "animation cfg ease sp d st tp ts ?p1 = (p', r)"
      by (simp add: Let_def)
    from Cons.IH [OF this] obtain ys where
      "history p' = history p" "sessionStorage p' = sessionStorage p"
      "pathname p' = pathname p" "querySelector p' = querySelector p"
      "calls p' = calls ?p1 @ map ScrollTo ys"
      by (auto simp: scrollTo_fields)
    then show ?thesis
      by (auto simp: scrollTo_fields intro: exI [of _ "_ # ys"])
  next
    case False
    with Cons.prems have "p' = scrollTo tp ?p1"
      by (simp add: Let_def)
    then show ?thesis
      by (auto simp: scrollTo_fields intro: exI [of _ "[_, _]"])
  qed
qed

lemma animation_completes:
  "\<exists>t \<in> set ts. \<not> t - st < duration cfg \<Longrightarrow>
   animation cfg ease sp d st tp ts p = (p', r) \<Longrightarrow>
     r \<and> scrollY p' = tp \<and> (\<exists>ys. calls p' = calls p @ map ScrollTo ys @ [ScrollTo tp])"
proof (induction ts arbitrary: p)
  case Nil
  then show ?case by simp
next
  case (Cons t ts)
  let ?p1 = "scrollTo (sp + d * ease (min ((t - st) / duration cfg) 1)) p"
  show ?case
  proof (cases "t - st < duration cfg")
    case True
    with Cons.prems have a: "animation cfg ease sp d st tp ts ?p1 = (p', r)"
      and b: "\<exists>t \<in> set ts. \<not> t - st < duration cfg"
      by (auto simp add: Let_def)
    from Cons.IH [OF b a] obtain ys where
      "r" "scrollY p' = tp" "calls p' = calls ?p1 @ map ScrollTo ys @ [ScrollTo tp]"
      by auto
    then show ?thesis
      by (auto simp: scrollTo_fields intro: exI [of _ "_ # ys"])
  next
    case False
    with Cons.prems have "p' = scrollTo tp ?p1" "r"
      by (simp_all add: Let_def)
    then show ?thesis
      by (auto simp: scrollTo_fields intro: exI [of _ "[_]"])
  qed
qed

lemma getTargetPosition_eq: "getTargetPosition cfg p t = docTop t - offset cfg"
  by (simp add: getTargetPosition_def or_else_def Let_def)

lemma animateScroll_frame:
  "animateScroll cfg now frames tp p = (p', r) \<Longrightarrow>
     history p' = history p \<and> sessionStorage p' = sessionStorage p \<and>
     pathname p' = pathname p \<and> querySelector p' = querySelector p \<and>
     (\<exists>ys. calls p' = calls p @ map ScrollTo ys)"
  unfolding animateScroll_def Let_def
  by (auto simp: scrollTo_fields dest: animation_frame intro: exI [of _ "[_]"] split: if_splits)

lemma animateScroll_completes:
  assumes "completes cfg now frames tp p" and "animateScroll cfg now frames tp p = (p', r)"
  shows "r \<and> scrollY p' = tp \<and> (\<exists>ys. calls p' = calls p @ map ScrollTo ys @ [ScrollTo tp])"
proof (cases "\<bar>tp - scrollY p\<bar> < 5")
  case True
  with assms(2) have "p' = scrollTo tp p" "r"
    by (simp_all add: animateScroll_def Let_def or_else_def)
  then show ?thesis
    by (auto simp: scrollTo_fields intro: exI [of _ "[]"])
next
  case False
  with assms(1) have "\<exists>t \<in> set frames. \<not> t - now < duration cfg"
    by (simp add: completes_def)
  moreover from False assms(2) obtain ease where
    "animation cfg ease (scrollY p) (tp - scrollY p) now tp frames p = (p', r)"
    by (simp add: animateScroll_def Let_def or_else_def)
  ultimately show ?thesis
    by (rule animation_completes)
qed

lemma scroll_then_push_frame:
  "sessionStorage (scroll_then_push cfg now frames t url p) = sessionStorage p"
  "pathname (scroll_then_push cfg now frames t url p) = pathname p"
  "querySelector (scroll_then_push cfg now frames t url p) = querySelector p"
  unfolding scroll_then_push_def Let_def
  by (auto simp: pushState_def dest: animateScroll_frame split: prod.splits)

lemma scroll_then_push_completes:
  assumes "completes cfg now frames (docTop t - offset cfg) p"
  shows "scrollY (scroll_then_push cfg now frames t url p) = docTop t - offset cfg"
    and "history (scroll_then_push cfg now frames t url p) = history p @ [url]"
    and "\<exists>ys. calls (scroll_then_push cfg now frames t url p)
            = calls p @ map ScrollTo ys @ [ScrollTo (docTop t - offset cfg), PushState url]"
proof -
  obtain p1 r where a: "animateScroll cfg now frames (docTop t - offset cfg) p = (p1, r)"
    by (cases "animateScroll cfg now frames (docTop t - offset cfg) p")
  from animateScroll_completes [OF assms a] animateScroll_frame [OF a]
  obtain ys where r: "r" and y: "scrollY p1 = docTop t - offset cfg"
    and c: "calls p1 = calls p @ map ScrollTo ys @ [ScrollTo (docTop t - offset cfg)]"
    and h: "history p1 = history p"
    by auto
  have e: "scroll_then_push cfg now frames t url p = pushState url p1"
    using a r by (simp add: scroll_then_push_def getTargetPosition_eq)
  show "scrollY (scroll_then_push cfg now frames t url p) = docTop t - offset cfg"
    using y by (simp add: e pushState_def)
  show "history (scroll_then_push cfg now frames t url p) = history p @ [url]"
    using h by (simp add: e pushState_def)
  show "\<exists>ys. calls (scroll_then_push cfg now frames t url p)
            = calls p @ map ScrollTo ys @ [ScrollTo (docTop t - offset cfg), PushState url]"
    using c by (auto simp add: e pushState_def)
qed


lemma extractIdFromHref_hash:
  "includesStr href ''index.html#'' \<Longrightarrow> \<exists>rest. extractIdFromHref href = Some (''#'' @ rest)"
  by (simp add: extractIdFromHref_def hash_plus_second_def)

lemma shop_page_not_home: "\<not> isHomePage shop_page"
  by (simp add: isHomePage_def shop_page_def endsWith_def suffix_def)

lemma extractId_example: "extractIdFromHref ''./index.html#shop'' = Some ''#shop''"
  by (simp add: extractIdFromHref_def split_def hash_plus_second_def)

text \<open>
  C3: a click on a link whose href starts with \<^verbatim>\<open>#\<close> and is not exactly \<^verbatim>\<open>#\<close>
  prevents the default navigation.  If \<^verbatim>\<open>querySelector\<close> finds an element for the
  hash, then, once the animation has run to its end, the page is scrolled to the
  element's document position minus the configured offset of 80 pixels, and the hash is
  pushed onto the history after the last scroll call.  If no element matches (or the
  selector is invalid), the page is unchanged: neither scroll position nor history move.
\<close>

theorem C3_local_anchor_click:
  assumes "startsWith href ''#''" and "href \<noteq> ''#''"
  shows "defaultPrevented (fst (handleAnchorClick config now frames (Some href) (e, p))) \<and>
    (case querySelector p href of
       Found target \<Rightarrow>
         completes config now frames (docTop target - 80) p \<longrightarrow>
           scrollY (snd (handleAnchorClick config now frames (Some href) (e, p)))
             = docTop target - 80 \<and>
           history (snd (handleAnchorClick config now frames (Some href) (e, p)))
             = history p @ [href] \<and>
           (\<exists>ys. calls (snd (handleAnchorClick config now frames (Some href) (e, p)))
             = calls p @ map ScrollTo ys @ [ScrollTo (docTop target - 80), PushState href])
     | NotFound \<Rightarrow> snd (handleAnchorClick config now frames (Some href) (e, p)) = p
     | SyntaxError \<Rightarrow> snd (handleAnchorClick config now frames (Some href) (e, p)) = p)"
proof -
  have ne: "href \<noteq> []"
    using assms(1) by (auto simp: startsWith_def)
  have off: "offset config = 80"
    by (simp add: config_def)
  have click: "handleAnchorClick config now frames (Some href) (e, p) =
      (preventDefault e,
       case getTargetElement p (Some href) of
         Some target \<Rightarrow> scroll_then_push config now frames target href p
       | None \<Rightarrow> p)"
    using assms ne by (simp add: handleAnchorClick_def)
  have target: "getTargetElement p (Some href) =
      (case querySelector p href of Found t \<Rightarrow> Some t | NotFound \<Rightarrow> None | SyntaxError \<Rightarrow> None)"
    using assms(2) ne by (simp add: getTargetElement_def)
  show ?thesis
  proof (cases "querySelector p href")
    case (Found t)
    then have "snd (handleAnchorClick config now frames (Some href) (e, p))
        = scroll_then_push config now frames t href p"
      by (simp add: click target)
    with Found scroll_then_push_completes [of config now frames t p href] off show ?thesis
      by (simp add: click preventDefault_def)
  next
    case NotFound
    then show ?thesis by (simp add: click target preventDefault_def)
  next
    case SyntaxError
    then show ?thesis by (simp add: click target preventDefault_def)
  qed
qed

theorem C3_local_anchor_click_witness:
  "startsWith ''#contact'' ''#'' \<and> ''#contact'' \<noteq> ''#'' \<and>
   querySelector shop_page ''#contact'' = Found (Element 1000) \<and>
   completes config 0 [16, 400, 816] (1000 - 80) shop_page \<and>
   defaultPrevented (fst (handleAnchorClick config 0 [16, 400, 816] (Some ''#contact'')
      (fresh_event, shop_page))) \<and>
   scrollY (snd (handleAnchorClick config 0 [16, 400, 816] (Some ''#contact'')
      (fresh_event, shop_page))) = 920 \<and>
   history (snd (handleAnchorClick config 0 [16, 400, 816] (Some ''#contact'')
      (fresh_event, shop_page))) = [''#contact'']"
proof -
  have h1: "startsWith ''#contact'' ''#''" by (simp add: startsWith_def)
  have h2: "''#contact'' \<noteq> ''#''" by simp
  have q: "querySelector shop_page ''#contact'' = Found (Element 1000)"
    by (simp add: shop_page_def)
  have c: "completes config 0 [16, 400, 816] (1000 - 80) shop_page"
    by (simp add: completes_def config_def shop_page_def)
  have h: "history shop_page = []" by (simp add: shop_page_def)
  from C3_local_anchor_click [OF h1 h2, of 0 "[16, 400, 816]" fresh_event shop_page] q c h
  show ?thesis using h1 by simp
qed


lemma handleAnchorClick_storage:
  "sessionStorage (snd (handleAnchorClick cfg now frames h (e, p))) =
     (case h of
        None \<Rightarrow> sessionStorage p
      | Some href \<Rightarrow>
          if \<not> (startsWith href ''#'' \<and> href \<noteq> ''#'') \<and> includesStr href ''index.html#''
             \<and> \<not> isHomePage p
          then (sessionStorage p)(''scrollTarget'' := extractIdFromHref href)
          else sessionStorage p)"
proof (cases h)
  case None
  then show ?thesis by (simp add: handleAnchorClick_def)
next
  case (Some href)
  show ?thesis
  proof (cases "includesStr href ''index.html#''")
    case True
    then obtain rest where "extractIdFromHref href = Some (''#'' @ rest)"
      using extractIdFromHref_hash by blast
    moreover from True have "href \<noteq> []" by auto
    ultimately show ?thesis using Some True
      by (auto simp: handleAnchorClick_def scroll_then_push_frame setItem_def
          split: option.splits)
  next
    case False
    then show ?thesis using Some
      by (auto simp: handleAnchorClick_def scroll_then_push_frame split: option.splits)
  qed
qed

lemma checkStoredScrollTarget_storage:
  "sessionStorage (fst (checkStoredScrollTarget p)) =
     (case sessionStorage p ''scrollTarget'' of
        None \<Rightarrow> sessionStorage p
      | Some targetId \<Rightarrow>
          if targetId = [] then sessionStorage p
          else (sessionStorage p)(''scrollTarget'' := None))"
  by (simp add: checkStoredScrollTarget_def removeItem_def split: option.splits)

lemma storedTargetTimeout_storage:
  "sessionStorage (storedTargetTimeout cfg now frames targetId p) = sessionStorage p"
  by (simp add: storedTargetTimeout_def scroll_then_push_frame split: option.splits)

lemma shop_click_storage:
  "sessionStorage (snd (handleAnchorClick config 0 [] (Some ''./index.html#shop'')
      (fresh_event, shop_page))) = (sessionStorage shop_page)(''scrollTarget'' \<mapsto> ''#shop'')"
  by (simp add: handleAnchorClick_storage extractId_example shop_page_not_home startsWith_def)

text \<open>
  C4, as stated, fails: a click on a link to a section of the home page, made on
  another page, writes the target id into the session storage, which outlives the page.
\<close>

theorem C4_click_writes_session_storage:
  "sessionStorage shop_page ''scrollTarget'' = None \<and>
   sessionStorage (snd (handleAnchorClick config 0 [] (Some ''./index.html#shop'')
      (fresh_event, shop_page))) ''scrollTarget'' = Some ''#shop''"
  using shop_click_storage by (simp add: shop_page_def)

text \<open>
  C4, amended: the one piece of data a handler writes that outlives the current page is
  the session-storage entry \<^verbatim>\<open>scrollTarget\<close>.  The click handler, the check at page
  load and its timer leave every other key of the session storage as it was; the click
  handler writes \<^verbatim>\<open>scrollTarget\<close> only for a link that contains \<^verbatim>\<open>index.html#\<close>, is
  not a local anchor, and is clicked away from the home page; the check at page load
  only removes it; the timer writes nothing.
\<close>

theorem C4_only_scrollTarget_persists:
  "(k \<noteq> ''scrollTarget'' \<longrightarrow>
      sessionStorage (snd (handleAnchorClick cfg now frames h (e, p))) k = sessionStorage p k \<and>
      sessionStorage (fst (checkStoredScrollTarget p)) k = sessionStorage p k) \<and>
   (sessionStorage (snd (handleAnchorClick cfg now frames h (e, p))) \<noteq> sessionStorage p \<longrightarrow>
      (\<exists>href. h = Some href \<and> includesStr href ''index.html#'' \<and>
         \<not> (startsWith href ''#'' \<and> href \<noteq> ''#'') \<and> \<not> isHomePage p)) \<and>
   (sessionStorage (fst (checkStoredScrollTarget p)) ''scrollTarget'' = None \<or>
    fst (checkStoredScrollTarget p) = p) \<and>
   sessionStorage (storedTargetTimeout cfg now frames targetId p) = sessionStorage p"
proof -
  have "sessionStorage (fst (checkStoredScrollTarget p)) ''scrollTarget'' = None \<or>
    fst (checkStoredScrollTarget p) = p"
    by (simp add: checkStoredScrollTarget_def removeItem_def split: option.splits)
  moreover have "sessionStorage (snd (handleAnchorClick cfg now frames h (e, p))) \<noteq> sessionStorage p \<longrightarrow>
      (\<exists>href. h = Some href \<and> includesStr href ''index.html#'' \<and>
         \<not> (startsWith href ''#'' \<and> href \<noteq> ''#'') \<and> \<not> isHomePage p)"
    unfolding handleAnchorClick_storage by (cases h) (auto split: if_splits)
  ultimately show ?thesis
    by (simp add: handleAnchorClick_storage checkStoredScrollTarget_storage
        storedTargetTimeout_storage split: option.splits)
qed

theorem C4_only_scrollTarget_persists_witness:
  "''cart'' \<noteq> ''scrollTarget'' \<and>
   sessionStorage (snd (handleAnchorClick config 0 [] (Some ''./index.html#shop'')
      (fresh_event, home_page [''cart'' \<mapsto> ''3'']))) ''cart'' = Some ''3'' \<and>
   sessionStorage (snd (handleAnchorClick config 0 [] (Some ''./index.html#shop'')
      (fresh_event, shop_page))) \<noteq> sessionStorage shop_page \<and>
   includesStr ''./index.html#shop'' ''index.html#'' \<and> \<not> isHomePage shop_page \<and>
   sessionStorage (fst (checkStoredScrollTarget (home_page [''scrollTarget'' \<mapsto> ''#shop''])))
      ''scrollTarget'' = None"
proof -
  have k: "''cart'' \<noteq> ''scrollTarget''" by simp
  have w: "sessionStorage (snd (handleAnchorClick config 0 [] (Some ''./index.html#shop'')
      (fresh_event, shop_page))) \<noteq> sessionStorage shop_page"
    unfolding shop_click_storage by (simp add: shop_page_def fun_eq_iff)
  have r: "fst (checkStoredScrollTarget (home_page [''scrollTarget'' \<mapsto> ''#shop'']))
      \<noteq> home_page [''scrollTarget'' \<mapsto> ''#shop'']"
    by (simp add: checkStoredScrollTarget_def home_page_def removeItem_def)
  from C4_only_scrollTarget_persists
         [of "''cart''" config 0 "[]" "Some ''./index.html#shop''" fresh_event
             "home_page [''cart'' \<mapsto> ''3'']"] k
  have a: "sessionStorage (snd (handleAnchorClick config 0 [] (Some ''./index.html#shop'')
      (fresh_event, home_page [''cart'' \<mapsto> ''3'']))) ''cart'' = Some ''3''"
    by (simp add: home_page_def)
  from C4_only_scrollTarget_persists
         [of "''cart''" config 0 "[]" "Some ''./index.html#shop''" fresh_event shop_page] w
  have b: "includesStr ''./index.html#shop'' ''index.html#'' \<and> \<not> isHomePage shop_page"
    by blast
  from C4_only_scrollTarget_persists
         [of "''cart''" config 0 "[]" None fresh_event
             "home_page [''scrollTarget'' \<mapsto> ''#shop'']"] r
  have c: "sessionStorage (fst (checkStoredScrollTarget
      (home_page [''scrollTarget'' \<mapsto> ''#shop'']))) ''scrollTarget'' = None"
    by blast
  from k a w b c show ?thesis by blast
qed


lemma cross_page_click:
  assumes "includesStr href ''index.html#''" and "\<not> startsWith href ''#''" and "\<not> isHomePage p"
  shows "\<exists>rest. extractIdFromHref href = Some (''#'' @ rest) \<and>
           handleAnchorClick cfg now frames (Some href) (e, p)
             = (e, setItem ''scrollTarget'' (''#'' @ rest) p)"
proof -
  from assms(1) obtain rest where r: "extractIdFromHref href = Some (''#'' @ rest)"
    using extractIdFromHref_hash by blast
  from assms(1) have "href \<noteq> []" by auto
  with assms r have "handleAnchorClick cfg now frames (Some href) (e, p)
             = (e, setItem ''scrollTarget'' (''#'' @ rest) p)"
    by (simp add: handleAnchorClick_def)
  with r show ?thesis by blast
qed

lemma split_from_skip:
  "split_from sep (length ys) piece (ys @ rest) = split_from sep 0 piece rest"
  by (induction ys) simp_all

lemma prefix_within:
  assumes "prefix s (u @ v)" and "length s \<le> length u"
  shows "prefix s u"
  using assms by (auto simp: prefix_append)

lemma split_from_no_sep:
  "\<not> includesStr xs sep \<Longrightarrow> split_from sep 0 piece xs = [rev piece @ xs]"
  by (induction xs arbitrary: piece) auto

lemma split_from_first:
  assumes "sep \<noteq> []" and "\<not> includesStr (xs @ butlast sep) sep"
  shows "split_from sep 0 piece (xs @ sep @ rest) = (rev piece @ xs) # split_from sep 0 [] rest"
  using assms(2)
proof (induction xs arbitrary: piece)
  case Nil
  from assms(1) obtain c cs where sep: "sep = c # cs"
    by (cases sep) auto
  have "split_from sep 0 piece (sep @ rest) = rev piece # split_from sep (length cs) [] (cs @ rest)"
    by (simp add: sep)
  then show ?case
    by (simp add: split_from_skip)
next
  case (Cons x xs)
  from Cons.prems have np: "\<not> prefix sep ((x # xs) @ butlast sep)"
    and ni: "\<not> includesStr (xs @ butlast sep) sep"
    by simp_all
  have "\<not> prefix sep ((x # xs) @ sep @ rest)"
  proof
    assume "prefix sep ((x # xs) @ sep @ rest)"
    then have "prefix sep (((x # xs) @ butlast sep) @ (last sep # rest))"
      using assms(1) by (metis append.assoc append_Cons append_Nil append_butlast_last_id)
    moreover have "length sep \<le> length ((x # xs) @ butlast sep)"
      using assms(1) by (cases sep) auto
    ultimately have "prefix sep ((x # xs) @ butlast sep)"
      by (rule prefix_within)
    with np show False ..
  qed
  then have "split_from sep 0 piece ((x # xs) @ sep @ rest)
      = split_from sep 0 (x # piece) (xs @ sep @ rest)"
    by simp
  also have "\<dots> = (rev (x # piece) @ xs) # split_from sep 0 [] rest"
    using ni by (rule Cons.IH)
  finally show ?case by simp
qed

lemma includesStr_Nil: "includesStr zs []"
  by (cases zs) simp_all

lemma includesStr_append: "includesStr (ys @ sep @ zs) sep"
proof (induction ys)
  case Nil
  show ?case
    by (cases sep) (simp_all add: includesStr_Nil)
next
  case (Cons y ys)
  then show ?case by simp
qed

lemma extractIdFromHref_single:
  assumes "\<not> includesStr (pre @ ''index.html'') ''index.html#''"
    and "\<not> includesStr ident ''index.html#''"
  shows "extractIdFromHref (pre @ ''index.html#'' @ ident) = Some (''#'' @ ident)"
proof -
  have i: "includesStr (pre @ ''index.html#'' @ ident) ''index.html#''"
    by (rule includesStr_append)
  have "split (pre @ ''index.html#'' @ ident) ''index.html#'' = [pre, ident]"
    unfolding split_def using assms
    by (subst split_from_first) (simp_all add: split_from_no_sep)
  with i show ?thesis
    by (simp add: extractIdFromHref_def hash_plus_second_def)
qed

lemma extractIdFromHref_first_of_many:
  assumes "\<not> includesStr (pre @ ''index.html'') ''index.html#''"
    and "\<not> includesStr (ident @ ''index.html'') ''index.html#''"
  shows "extractIdFromHref (pre @ ''index.html#'' @ ident @ ''index.html#'' @ post)
           = Some (''#'' @ ident)"
proof -
  have i: "includesStr (pre @ ''index.html#'' @ ident @ ''index.html#'' @ post) ''index.html#''"
    using includesStr_append [of pre "''index.html#''" "ident @ ''index.html#'' @ post"] by simp
  have "\<exists>ps. split (pre @ ''index.html#'' @ ident @ ''index.html#'' @ post) ''index.html#''
          = pre # ident # ps"
    unfolding split_def using assms
    by (subst split_from_first, simp, simp, subst split_from_first) simp_all
  with i show ?thesis
    by (auto simp add: extractIdFromHref_def hash_plus_second_def)
qed


text \<open>
  C2, as stated, fails for a link whose href contains \<^verbatim>\<open>index.html#\<close> but starts with
  \<^verbatim>\<open>#\<close>: the handler takes the local-anchor branch, prevents the default navigation
  and stores nothing.
\<close>

theorem C2_hash_prefixed_link_counterexample:
  "includesStr ''#index.html#a'' ''index.html#'' \<and> \<not> isHomePage shop_page \<and>
   defaultPrevented (fst (handleAnchorClick config 0 [] (Some ''#index.html#a'')
      (fresh_event, shop_page))) \<and>
   sessionStorage (snd (handleAnchorClick config 0 [] (Some ''#index.html#a'')
      (fresh_event, shop_page))) ''scrollTarget'' = None"
  by (simp add: handleAnchorClick_def shop_page_not_home startsWith_def getTargetElement_def
      preventDefault_def) (simp add: shop_page_def)

text \<open>
  C2, amended: a click on a link whose href contains \<^verbatim>\<open>index.html#\<close> and does not
  start with \<^verbatim>\<open>#\<close>, made while not on the home page, leaves the event untouched (the
  default navigation is not prevented) and stores the target id, prefixed with \<^verbatim>\<open>#\<close>,
  in the session storage under the key \<^verbatim>\<open>scrollTarget\<close>; scroll position and history
  stay as they were.  The target id is the text of the href that follows its first
  \<^verbatim>\<open>index.html#\<close>, up to the next \<^verbatim>\<open>index.html#\<close> if there is one, and is what
  \<^verbatim>\<open>extractIdFromHref\<close> returns without the \<^verbatim>\<open>#\<close>.  On a page \<open>q\<close> loaded with that session storage,
  \<^verbatim>\<open>checkStoredScrollTarget\<close> removes the key, whatever the page contains, and hands the
  stored id to its timer.  The timer scrolls to the element matching the id (to its
  document position minus the offset, once the animation has run to its end) and leaves
  the page unchanged when there is no such element.  A second check finds nothing: the
  stored target is consumed exactly once.
\<close>

theorem C2_cross_page_target:
  assumes "includesStr href ''index.html#''" and "\<not> startsWith href ''#''"
    and "\<not> isHomePage p"
    and "sessionStorage q = sessionStorage (snd (handleAnchorClick cfg now frames (Some href) (e, p)))"
  shows "\<exists>rest.
    extractIdFromHref href = Some (''#'' @ rest) \<and>
    (\<forall>pre ident.
       href = pre @ ''index.html#'' @ ident \<and>
       \<not> includesStr (pre @ ''index.html'') ''index.html#'' \<and>
       \<not> includesStr ident ''index.html#'' \<longrightarrow> rest = ident) \<and>
    (\<forall>pre ident post.
       href = pre @ ''index.html#'' @ ident @ ''index.html#'' @ post \<and>
       \<not> includesStr (pre @ ''index.html'') ''index.html#'' \<and>
       \<not> includesStr (ident @ ''index.html'') ''index.html#'' \<longrightarrow> rest = ident) \<and>
    fst (handleAnchorClick cfg now frames (Some href) (e, p)) = e \<and>
    snd (handleAnchorClick cfg now frames (Some href) (e, p))
      = setItem ''scrollTarget'' (''#'' @ rest) p \<and>
    sessionStorage (snd (handleAnchorClick cfg now frames (Some href) (e, p)))
      = (sessionStorage p)(''scrollTarget'' \<mapsto> ''#'' @ rest) \<and>
    scrollY (snd (handleAnchorClick cfg now frames (Some href) (e, p))) = scrollY p \<and>
    history (snd (handleAnchorClick cfg now frames (Some href) (e, p))) = history p \<and>
    snd (checkStoredScrollTarget q) = Some (''#'' @ rest) \<and>
    sessionStorage (fst (checkStoredScrollTarget q)) ''scrollTarget'' = None \<and>
    checkStoredScrollTarget (fst (checkStoredScrollTarget q))
      = (fst (checkStoredScrollTarget q), None) \<and>
    (case getTargetElement (fst (checkStoredScrollTarget q)) (Some (''#'' @ rest)) of
       Some target \<Rightarrow>
         completes cfg now' frames' (docTop target - offset cfg) (fst (checkStoredScrollTarget q))
         \<longrightarrow> scrollY (page_load cfg now' frames' q) = docTop target - offset cfg \<and>
             history (page_load cfg now' frames' q) = history q @ [''#'' @ rest]
     | None \<Rightarrow> page_load cfg now' frames' q = fst (checkStoredScrollTarget q) \<and>
                scrollY (page_load cfg now' frames' q) = scrollY q \<and>
                history (page_load cfg now' frames' q) = history q)"
proof -
  from cross_page_click [OF assms(1-3), of cfg now frames e] obtain rest where
    ident: "extractIdFromHref href = Some (''#'' @ rest)"
    and click: "handleAnchorClick cfg now frames (Some href) (e, p)
             = (e, setItem ''scrollTarget'' (''#'' @ rest) p)"
    by blast
  have single: "rest = ident"
    if "href = pre @ ''index.html#'' @ ident \<and>
       \<not> includesStr (pre @ ''index.html'') ''index.html#'' \<and>
       \<not> includesStr ident ''index.html#''" for pre ident
    using that ident extractIdFromHref_single [of pre ident] by simp
  have many: "rest = ident"
    if "href = pre @ ''index.html#'' @ ident @ ''index.html#'' @ post \<and>
       \<not> includesStr (pre @ ''index.html'') ''index.html#'' \<and>
       \<not> includesStr (ident @ ''index.html'') ''index.html#''" for pre ident post
    using that ident extractIdFromHref_first_of_many [of pre ident post] by simp
  let ?ident = "''#'' @ rest"
  let ?q1 = "removeItem ''scrollTarget'' q"
  have stored: "sessionStorage q ''scrollTarget'' = Some ?ident"
    using assms(4) by (simp add: click setItem_def)
  then have check: "checkStoredScrollTarget q = (?q1, Some ?ident)"
    by (simp add: checkStoredScrollTarget_def)
  have again: "checkStoredScrollTarget ?q1 = (?q1, None)"
    by (simp add: checkStoredScrollTarget_def removeItem_def)
  have load: "page_load cfg now' frames' q = storedTargetTimeout cfg now' frames' ?ident ?q1"
    by (simp add: page_load_def check)
  have q1: "scrollY ?q1 = scrollY q" "history ?q1 = history q"
    "sessionStorage ?q1 ''scrollTarget'' = None"
    by (simp_all add: removeItem_def)
  have timer: "case getTargetElement ?q1 (Some ?ident) of
       Some target \<Rightarrow>
         completes cfg now' frames' (docTop target - offset cfg) ?q1
         \<longrightarrow> scrollY (page_load cfg now' frames' q) = docTop target - offset cfg \<and>
             history (page_load cfg now' frames' q) = history q @ [?ident]
     | None \<Rightarrow> page_load cfg now' frames' q = ?q1 \<and>
                scrollY (page_load cfg now' frames' q) = scrollY q \<and>
                history (page_load cfg now' frames' q) = history q"
  proof (cases "getTargetElement ?q1 (Some ?ident)")
    case None
    then show ?thesis
      using q1 by (simp add: load storedTargetTimeout_def)
  next
    case (Some t)
    then have "page_load cfg now' frames' q = scroll_then_push cfg now' frames' t ?ident ?q1"
      by (simp add: load storedTargetTimeout_def)
    with Some scroll_then_push_completes [of cfg now' frames' t ?q1 ?ident] q1 show ?thesis
      by simp
  qed
  have "fst (handleAnchorClick cfg now frames (Some href) (e, p)) = e"
    and "snd (handleAnchorClick cfg now frames (Some href) (e, p))
      = setItem ''scrollTarget'' ?ident p"
    and "sessionStorage (snd (handleAnchorClick cfg now frames (Some href) (e, p)))
      = (sessionStorage p)(''scrollTarget'' \<mapsto> ?ident)"
    and "scrollY (snd (handleAnchorClick cfg now frames (Some href) (e, p))) = scrollY p"
    and "history (snd (handleAnchorClick cfg now frames (Some href) (e, p))) = history p"
    by (simp_all add: click setItem_def)
  moreover have "\<forall>pre ident.
       href = pre @ ''index.html#'' @ ident \<and>
       \<not> includesStr (pre @ ''index.html'') ''index.html#'' \<and>
       \<not> includesStr ident ''index.html#'' \<longrightarrow> rest = ident"
    by (intro allI impI) (rule single)
  moreover have "\<forall>pre ident post.
       href = pre @ ''index.html#'' @ ident @ ''index.html#'' @ post \<and>
       \<not> includesStr (pre @ ''index.html'') ''index.html#'' \<and>
       \<not> includesStr (ident @ ''index.html'') ''index.html#'' \<longrightarrow> rest = ident"
    by (intro allI impI) (rule many)
  moreover note timer q1(3) again ident
  ultimately show ?thesis
    unfolding check fst_conv snd_conv
    by - (intro exI [of _ rest] conjI; (assumption | rule refl))
qed


theorem C2_cross_page_target_witness:
  "includesStr ''./index.html#shop'' ''index.html#'' \<and>
   \<not> startsWith ''./index.html#shop'' ''#'' \<and> \<not> isHomePage shop_page \<and>
   sessionStorage (home_page [''scrollTarget'' \<mapsto> ''#shop''])
     = sessionStorage (snd (handleAnchorClick config 0 [] (Some ''./index.html#shop'')
         (fresh_event, shop_page))) \<and>
   ''./index.html#shop'' = ''./'' @ ''index.html#'' @ ''shop'' \<and>
   \<not> includesStr (''./'' @ ''index.html'') ''index.html#'' \<and>
   \<not> includesStr ''shop'' ''index.html#'' \<and>
   fst (handleAnchorClick config 0 [] (Some ''./index.html#shop'') (fresh_event, shop_page))
     = fresh_event \<and>
   snd (handleAnchorClick config 0 [] (Some ''./index.html#shop'') (fresh_event, shop_page))
     = setItem ''scrollTarget'' ''#shop'' shop_page \<and>
   snd (checkStoredScrollTarget (home_page [''scrollTarget'' \<mapsto> ''#shop''])) = Some ''#shop'' \<and>
   scrollY (page_load config 0 [16, 400, 816] (home_page [''scrollTarget'' \<mapsto> ''#shop'']))
     = 1420 \<and>
   history (page_load config 0 [16, 400, 816] (home_page [''scrollTarget'' \<mapsto> ''#shop'']))
     = [''#shop'']"
proof -
  let ?q = "home_page [''scrollTarget'' \<mapsto> ''#shop'']"
  have h1: "includesStr ''./index.html#shop'' ''index.html#''" by simp
  have h2: "\<not> startsWith ''./index.html#shop'' ''#''" by (simp add: startsWith_def)
  have h3: "\<not> isHomePage shop_page" by (rule shop_page_not_home)
  have h4: "sessionStorage ?q
     = sessionStorage (snd (handleAnchorClick config 0 [] (Some ''./index.html#shop'')
         (fresh_event, shop_page)))"
    unfolding shop_click_storage by (simp add: home_page_def shop_page_def)
  have h5: "''./index.html#shop'' = ''./'' @ ''index.html#'' @ ''shop'' \<and>
     \<not> includesStr (''./'' @ ''index.html'') ''index.html#'' \<and>
     \<not> includesStr ''shop'' ''index.html#''"
    by simp
  obtain rest where
    u: "\<forall>pre ident.
       ''./index.html#shop'' = pre @ ''index.html#'' @ ident \<and>
       \<not> includesStr (pre @ ''index.html'') ''index.html#'' \<and>
       \<not> includesStr ident ''index.html#'' \<longrightarrow> rest = ident"
    and e: "fst (handleAnchorClick config 0 [] (Some ''./index.html#shop'') (fresh_event, shop_page))
          = fresh_event"
    and st: "snd (handleAnchorClick config 0 [] (Some ''./index.html#shop'') (fresh_event, shop_page))
          = setItem ''scrollTarget'' (''#'' @ rest) shop_page"
    and t: "snd (checkStoredScrollTarget ?q) = Some (''#'' @ rest)"
    and l: "case getTargetElement (fst (checkStoredScrollTarget ?q)) (Some (''#'' @ rest)) of
       Some target \<Rightarrow>
         completes config 0 [16, 400, 816] (docTop target - offset config)
           (fst (checkStoredScrollTarget ?q))
         \<longrightarrow> scrollY (page_load config 0 [16, 400, 816] ?q) = docTop target - offset config \<and>
             history (page_load config 0 [16, 400, 816] ?q) = history ?q @ [''#'' @ rest]
     | None \<Rightarrow> page_load config 0 [16, 400, 816] ?q = fst (checkStoredScrollTarget ?q) \<and>
                scrollY (page_load config 0 [16, 400, 816] ?q) = scrollY ?q \<and>
                history (page_load config 0 [16, 400, 816] ?q) = history ?q"
  proof -
    from C2_cross_page_target [OF h1 h2 h3 h4, of 0 "[16, 400, 816]"] show ?thesis
      by (elim exE conjE) (rule that; assumption)
  qed
  have c: "checkStoredScrollTarget ?q = (removeItem ''scrollTarget'' ?q, Some ''#shop'')"
    by (simp add: checkStoredScrollTarget_def home_page_def)
  from u [rule_format, OF h5] have rest: "rest = ''shop''" .
  have g: "getTargetElement (fst (checkStoredScrollTarget ?q)) (Some ''#shop'')
      = Some (Element 1500)"
    unfolding c by (simp add: getTargetElement_def removeItem_def home_page_def)
  have d: "completes config 0 [16, 400, 816] (1500 - 80) (fst (checkStoredScrollTarget ?q))"
    by (simp add: completes_def config_def)
  have o: "offset config = 80" by (simp add: config_def)
  have hq: "history ?q = []" by (simp add: home_page_def)
  from l have "scrollY (page_load config 0 [16, 400, 816] ?q) = 1420 \<and>
             history (page_load config 0 [16, 400, 816] ?q) = [''#shop'']"
    unfolding rest using g d o hq by simp
  moreover from st have "snd (handleAnchorClick config 0 [] (Some ''./index.html#shop'')
        (fresh_event, shop_page)) = setItem ''scrollTarget'' ''#shop'' shop_page"
    unfolding rest by simp
  moreover from t have "snd (checkStoredScrollTarget ?q) = Some ''#shop''"
    unfolding rest by simp
  moreover note h1 h2 h3 h4 h5 e
  ultimately show ?thesis by (intro conjI) (simp_all only: simp_thms)
qed



section \<open>Properties of the carousel\<close>

lemma fold_prepend:
  "fold (\<lambda>c t. t\<lparr>wrapper := f c # wrapper t\<rparr>) xs s = s\<lparr>wrapper := rev (map f xs) @ wrapper s\<rparr>"
  by (induction xs arbitrary: s) simp_all

lemma fold_append:
  "fold (\<lambda>c t. t\<lparr>wrapper := wrapper t @ [f c]\<rparr>) xs s = s\<lparr>wrapper := wrapper s @ map f xs\<rparr>"
  by (induction xs arbitrary: s) simp_all

lemma slice_first: "0 \<le> c \<Longrightarrow> c \<le> int (length xs) \<Longrightarrow> slice xs 0 (Some c) = take (nat c) xs"
  by (simp add: slice_def relative_index_def Let_def)

lemma slice_last:
  "1 \<le> c \<Longrightarrow> c \<le> int (length xs) \<Longrightarrow> slice xs (- c) None = drop (length xs - nat c) xs"
  by (simp add: slice_def relative_index_def Let_def nat_diff_distrib')

lemma setupInfiniteLoop_loop:
  assumes "1 \<le> cardsToShow s" and "cardsToShow s < int (length (wrapper s))"
  shows "setupInfiniteLoop s =
     s\<lparr>totalRealCards := int (length (wrapper s)),
       wrapper := rev (map (\<lambda>c. Card (content c) True)
                     (drop (length (wrapper s) - nat (cardsToShow s)) (wrapper s)))
                  @ wrapper s
                  @ map (\<lambda>c. Card (content c) True) (take (nat (cardsToShow s)) (wrapper s)),
       totalCards := Num (int (length (wrapper s)) + 2 * cardsToShow s),
       maxIndex := Num (int (length (wrapper s)) + cardsToShow s)\<rparr>"
proof -
  let ?c = "cardsToShow s" and ?n = "int (length (wrapper s))"
  have m: "min ?n ?c = ?c" using assms by simp
  have f: "slice (wrapper s) 0 (Some ?c) = take (nat ?c) (wrapper s)"
    using assms by (simp add: slice_first)
  have l: "slice (wrapper s) (- ?c) None = drop (length (wrapper s) - nat ?c) (wrapper s)"
    using assms by (simp add: slice_last)
  have len: "int (length (drop (length (wrapper s) - nat ?c) (wrapper s))) = ?c"
    "int (length (take (nat ?c) (wrapper s))) = ?c"
    using assms by auto
  show ?thesis
    using assms len
    by (simp add: setupInfiniteLoop_def Let_def m f l fold_prepend fold_append comp_def)
qed

lemma setupInfiniteLoop_loop_mode:
  assumes "1 \<le> cardsToShow s" and "cardsToShow s < int (length (wrapper s))"
  shows "loop_mode (setupInfiniteLoop s)" and "loop (setupInfiniteLoop s) = loop s"
    and "cardsToShow (setupInfiniteLoop s) = cardsToShow s"
    and "totalRealCards (setupInfiniteLoop s) = int (length (wrapper s))"
  using assms by (simp_all add: setupInfiniteLoop_loop [OF assms] loop_mode_def)

lemma filter_eq_upt: "r < n \<Longrightarrow> filter (\<lambda>k. k = r) [0..<n] = [r]"
  by (induction n) auto

lemma updateDots_loop:
  assumes "loop s" and "dots s = Some ds" and "currentIndex s = Num i"
  shows "dots (updateDots s) =
     Some (map (\<lambda>k. int k =
       (if i - cardsToShow s < 0 then totalRealCards s + (i - cardsToShow s)
        else if i - cardsToShow s \<ge> totalRealCards s then i - cardsToShow s - totalRealCards s
        else i - cardsToShow s)) [0..<length ds])"
  using assms by (simp add: updateDots_def Let_def)


lemma active_dots_unique:
  assumes "dots s = Some (map (\<lambda>k. int k = r) [0..<n])" and "0 \<le> r" and "r < int n"
  shows "active_dots s = [nat r]"
proof -
  have "filter (\<lambda>i. map (\<lambda>k. int k = r) [0..<n] ! i) [0..<n] = filter (\<lambda>k. k = nat r) [0..<n]"
    using assms(2) by (intro filter_cong) auto
  also have "\<dots> = [nat r]"
    using assms(2,3) by (intro filter_eq_upt) auto
  finally show ?thesis
    using assms(1) by (simp add: active_dots_def)
qed

text \<open>
  C10: in loop mode (more real cards than cards to show, which makes
  \<^verbatim>\<open>setupInfiniteLoop\<close> clone \<^verbatim>\<open>cardsToShow\<close> cards at each end and set \<^verbatim>\<open>maxIndex\<close>
  to \<^verbatim>\<open>totalRealCards + cardsToShow\<close>), for every \<^verbatim>\<open>currentIndex\<close> from 0 to
  \<^verbatim>\<open>maxIndex\<close> the real index that \<^verbatim>\<open>updateDots\<close> computes lies in
  \<open>[0, totalRealCards)\<close>: exactly one dot, that one, is marked active.
\<close>

theorem C10_active_dot_exists_and_is_unique:
  "(1 \<le> cardsToShow s0 \<and> cardsToShow s0 < int (length (wrapper s0)) \<longrightarrow>
      loop_mode (setupInfiniteLoop s0) \<and>
      totalRealCards (setupInfiniteLoop s0) = int (length (wrapper s0)) \<and>
      length (wrapper (setupInfiniteLoop s0))
        = length (wrapper s0) + 2 * nat (cardsToShow s0) \<and>
      (dotsContainer s0 \<and> loop s0 \<longrightarrow>
         dots (createDots (setupInfiniteLoop s0))
           = Some (map (\<lambda>k. k = 0) [0..<length (wrapper s0)]))) \<and>
   (loop_mode s \<and> loop s \<and> dots s = Some ds \<and> int (length ds) = totalRealCards s \<and>
    currentIndex s = Num i \<and> 0 \<le> i \<and> maxIndex s = Num m \<and> i \<le> m \<longrightarrow>
      (\<exists>r. 0 \<le> r \<and> r < totalRealCards s \<and>
           dots (updateDots s) = Some (map (\<lambda>k. int k = r) [0..<length ds]) \<and>
           active_dots (updateDots s) = [nat r]))"
proof (intro conjI impI)
  assume a: "1 \<le> cardsToShow s0 \<and> cardsToShow s0 < int (length (wrapper s0))"
  then show "loop_mode (setupInfiniteLoop s0)"
    and "totalRealCards (setupInfiniteLoop s0) = int (length (wrapper s0))"
    by (simp_all add: setupInfiniteLoop_loop_mode)
  from a show "length (wrapper (setupInfiniteLoop s0))
        = length (wrapper s0) + 2 * nat (cardsToShow s0)"
    by (simp add: setupInfiniteLoop_loop) linarith
  from a show "dots (createDots (setupInfiniteLoop s0))
           = Some (map (\<lambda>k. k = 0) [0..<length (wrapper s0)])"
    if "dotsContainer s0 \<and> loop s0"
    using that by (simp add: setupInfiniteLoop_loop createDots_def)
next
  assume a: "loop_mode s \<and> loop s \<and> dots s = Some ds \<and> int (length ds) = totalRealCards s \<and>
    currentIndex s = Num i \<and> 0 \<le> i \<and> maxIndex s = Num m \<and> i \<le> m"
  define c where "c = cardsToShow s"
  define n where "n = totalRealCards s"
  define r where "r = (if i - c < 0 then n + (i - c) else if i - c \<ge> n then i - c - n else i - c)"
  from a have "maxIndex s = Num m" and "maxIndex s = Num (n + c)" and c: "1 \<le> c" "c < n"
    unfolding loop_mode_def c_def n_def by blast+
  then have m: "m = n + c" by simp
  from a m c have i: "0 \<le> i" "i \<le> n + c"
    by simp_all
  with c have r: "0 \<le> r" "r < n"
    by (auto simp: r_def)
  from a have d: "dots (updateDots s) = Some (map (\<lambda>k. int k = r) [0..<length ds])"
    by (simp add: updateDots_loop r_def c_def n_def)
  moreover from a r have "r < int (length ds)"
    by (simp add: n_def)
  with d r(1) have "active_dots (updateDots s) = [nat r]"
    by (rule active_dots_unique)
  ultimately show "\<exists>r. 0 \<le> r \<and> r < totalRealCards s \<and>
           dots (updateDots s) = Some (map (\<lambda>k. int k = r) [0..<length ds]) \<and>
           active_dots (updateDots s) = [nat r]"
    using r unfolding n_def by blast
qed

lemma new_slider_eq:
  "new_slider =
    \<lparr>cardsToShow = 1, autoSlide = False, slideInterval = 5000, loop = True,
    wrapper =
      [Card 2 True, Card 0 False, Card 1 False, Card 2 False, Card 0 True],
    transition = [], transform = None, dragging = False, prevArrow = True,
    nextArrow = True, dotsContainer = True,
    dots = Some [True, False, False], totalRealCards = 3,
    totalCards = Num 5, maxIndex = Num 4, cardFullWidth = Num 300,
    isDragging = False, isHorizontalSwipe = False, startX = 0, startY = 0,
    initialX = 0, currentTranslate = Num 0, prevTranslate = Num 0,
    currentIndex = Num 0, isAnimating = False,
    timers = [(InitPosition, 10)], mouseListeners = 0\<rparr>"
  by code_simp

lemma ready_slider_eq:
  "ready_slider =
   \<lparr>cardsToShow = 1, autoSlide = False, slideInterval = 5000, loop = True,
    wrapper =
      [Card 2 True, Card 0 False, Card 1 False, Card 2 False, Card 0 True],
    transition = ''none'', transform = Some (Num (- 900)), dragging = False,
    prevArrow = True, nextArrow = True, dotsContainer = True,
    dots = Some [False, False, True], totalRealCards = 3,
    totalCards = Num 5, maxIndex = Num 4, cardFullWidth = Num 300,
    isDragging = False, isHorizontalSwipe = False, startX = 0, startY = 0,
    initialX = 0, currentTranslate = Num (- 900),
    prevTranslate = Num (- 900), currentIndex = Num 3, isAnimating = False,
    timers = [], mouseListeners = 0\<rparr>"
  by code_simp

theorem C10_active_dot_exists_and_is_unique_witness:
  "loop_mode ready_slider \<and> loop ready_slider \<and> dots ready_slider = Some [False, False, True] \<and>
   currentIndex (ready_slider\<lparr>currentIndex := Num 4\<rparr>) = Num 4 \<and>
   maxIndex ready_slider = Num 4 \<and>
   active_dots (updateDots (ready_slider\<lparr>currentIndex := Num 4\<rparr>)) = [0] \<and>
   loop_mode (setupInfiniteLoop
      (constructor_fields three_cards [Card 0 False, Card 1 False, Card 2 False] page_options)) \<and>
   dots (createDots (setupInfiniteLoop
      (constructor_fields three_cards [Card 0 False, Card 1 False, Card 2 False] page_options)))
     = Some [True, False, False]"
proof -
  let ?s = "ready_slider\<lparr>currentIndex := Num 4\<rparr>"
  let ?init = "constructor_fields three_cards [Card 0 False, Card 1 False, Card 2 False] page_options"
  have h: "loop_mode ?s \<and> loop ?s \<and> dots ?s = Some [False, False, True] \<and>
     int (length [False, False, True]) = totalRealCards ?s \<and>
     currentIndex ?s = Num 4 \<and> (0::int) \<le> 4 \<and> maxIndex ?s = Num 4 \<and> (4::int) \<le> 4"
    by (simp add: ready_slider_eq loop_mode_def)
  have h0: "1 \<le> cardsToShow ?init \<and> cardsToShow ?init < int (length (wrapper ?init))"
    by (simp add: constructor_fields_def page_options_def)
  have h1: "dotsContainer ?init \<and> loop ?init" "length (wrapper ?init) = 3"
    by (simp_all add: constructor_fields_def page_options_def three_cards_def)
  from C10_active_dot_exists_and_is_unique [of ?init ?s "[False, False, True]" 4 4] h h0 h1(1)
  obtain r where l: "loop_mode (setupInfiniteLoop ?init)"
    and c: "dots (createDots (setupInfiniteLoop ?init))
              = Some (map (\<lambda>k. k = 0) [0..<length (wrapper ?init)])"
    and d: "dots (updateDots ?s) = Some (map (\<lambda>k. int k = r) [0..<length [False, False, True]])"
    and a: "active_dots (updateDots ?s) = [nat r]"
    by blast
  have "dots (updateDots ?s) = Some [True, False, False]"
    by (simp add: updateDots_def ready_slider_eq)
  with d have "r = 0"
    by (simp add: upt_rec)
  moreover from c have "dots (createDots (setupInfiniteLoop ?init)) = Some [True, False, False]"
    unfolding h1(2) by (simp add: upt_rec)
  ultimately show ?thesis
    using a l h by (simp add: ready_slider_eq loop_mode_def)
qed

lemma slideToIndex_animating: "isAnimating s \<Longrightarrow> slideToIndex idx a s = s"
  by (simp add: slideToIndex_def)

lemma updateDots_other:
  "currentIndex (updateDots s) = currentIndex s"
  "currentTranslate (updateDots s) = currentTranslate s"
  "prevTranslate (updateDots s) = prevTranslate s"
  "maxIndex (updateDots s) = maxIndex s"
  "cardFullWidth (updateDots s) = cardFullWidth s"
  "cardsToShow (updateDots s) = cardsToShow s"
  "totalRealCards (updateDots s) = totalRealCards s"
  "loop (updateDots s) = loop s"
  "isAnimating (updateDots s) = isAnimating s"
  by (simp_all add: updateDots_def Let_def split: option.splits)

lemma slideToIndex_sync:
  assumes "\<not> isAnimating s"
  shows "currentIndex (slideToIndex idx a s) = Math_max (Num 0) (Math_min idx (maxIndex s))"
    and "currentTranslate (slideToIndex idx a s) =
           lift1 uminus (lift2 (\<lambda>i w. real_of_int i * w)
             (Math_max (Num 0) (Math_min idx (maxIndex s))) (cardFullWidth s))"
    and "prevTranslate (slideToIndex idx a s) = currentTranslate (slideToIndex idx a s)"
    and "maxIndex (slideToIndex idx a s) = maxIndex s"
    and "cardFullWidth (slideToIndex idx a s) = cardFullWidth s"
    and "cardsToShow (slideToIndex idx a s) = cardsToShow s"
    and "totalRealCards (slideToIndex idx a s) = totalRealCards s"
    and "isAnimating (slideToIndex idx a s) = (loop s \<and> a)"
  using assms
  by (simp_all add: slideToIndex_def Let_def setSliderPosition_def setTimeout_def updateDots_other)

lemma slideToIndex_inv:
  assumes "\<not> isAnimating s" and "maxIndex s = Num m" and "0 \<le> m" and "cardFullWidth s = Num w"
  shows "currentIndex (slideToIndex (Num i) a s) = Num (max 0 (min i m))"
    and "currentTranslate (slideToIndex (Num i) a s) = Num (- (real_of_int (max 0 (min i m)) * w))"
    and "prevTranslate (slideToIndex (Num i) a s) = Num (- (real_of_int (max 0 (min i m)) * w))"
    and "slide_inv (slideToIndex (Num i) a s)"
proof -
  show c: "currentIndex (slideToIndex (Num i) a s) = Num (max 0 (min i m))"
    using assms by (simp add: slideToIndex_sync Math_max_def Math_min_def)
  show t: "currentTranslate (slideToIndex (Num i) a s) = Num (- (real_of_int (max 0 (min i m)) * w))"
    using assms by (simp add: slideToIndex_sync Math_max_def Math_min_def)
  show p: "prevTranslate (slideToIndex (Num i) a s) = Num (- (real_of_int (max 0 (min i m)) * w))"
    using assms t by (simp add: slideToIndex_sync)
  have "0 \<le> max 0 (min i m)" and "max 0 (min i m) \<le> m"
    using assms(3) by simp_all
  then show "slide_inv (slideToIndex (Num i) a s)"
    using assms(1,2,4) by (simp add: slide_inv_def c t p slideToIndex_sync)
qed

lemma loopReset_index:
  assumes "loop_mode s" and "currentIndex s = Num i" and "cardFullWidth s = Num w"
  defines "c \<equiv> cardsToShow s" and "n \<equiv> totalRealCards s"
  defines "j \<equiv> (if i \<le> c - 1 then n + c - (c - 1 - i)
                 else if i \<ge> n + c - (c - 1) then i - (n + c - (c - 1)) + (c - 1) else i)"
  shows "currentIndex (loopReset s) = Num j"
    and "maxIndex (loopReset s) = maxIndex s"
    and "cardFullWidth (loopReset s) = cardFullWidth s"
    and "j \<noteq> i \<Longrightarrow> currentTranslate (loopReset s) = Num (- (real_of_int j * w))"
    and "j \<noteq> i \<Longrightarrow> prevTranslate (loopReset s) = Num (- (real_of_int j * w))"
    and "j = i \<Longrightarrow> currentTranslate (loopReset s) = currentTranslate s"
    and "j = i \<Longrightarrow> prevTranslate (loopReset s) = prevTranslate s"
proof -
  from assms(1) have m: "maxIndex s = Num (n + c)" and c: "1 \<le> c" "c < n"
    by (simp_all add: loop_mode_def c_def n_def)
  note defs = loopReset_def Let_def setSliderPosition_def setTimeout_def j_def
  show "currentIndex (loopReset s) = Num j"
    using assms(2,3) m by (simp add: defs c_def [symmetric])
  show "maxIndex (loopReset s) = maxIndex s"
    by (simp add: defs)
  show "cardFullWidth (loopReset s) = cardFullWidth s"
    by (simp add: defs)
  show "j \<noteq> i \<Longrightarrow> currentTranslate (loopReset s) = Num (- (real_of_int j * w))"
    using assms(2,3) m by (auto simp add: defs c_def [symmetric] split: if_splits)
  show "j \<noteq> i \<Longrightarrow> prevTranslate (loopReset s) = Num (- (real_of_int j * w))"
    using assms(2,3) m by (auto simp add: defs c_def [symmetric] split: if_splits)
  show "j = i \<Longrightarrow> currentTranslate (loopReset s) = currentTranslate s"
    using assms(2,3) m c by (auto simp add: defs c_def [symmetric] split: if_splits)
  show "j = i \<Longrightarrow> prevTranslate (loopReset s) = prevTranslate s"
    using assms(2,3) m c by (auto simp add: defs c_def [symmetric] split: if_splits)
qed


lemma slide_inv_transition: "slide_inv (s\<lparr>transition := x\<rparr>) = slide_inv s"
  by (simp add: slide_inv_def split: num.splits)

lemma slide_inv_fields:
  assumes "slide_inv s"
  obtains i m w where "currentIndex s = Num i" and "maxIndex s = Num m"
    and "cardFullWidth s = Num w" and "0 \<le> i" and "i \<le> m"
    and "currentTranslate s = Num (- (real_of_int i * w))"
    and "prevTranslate s = Num (- (real_of_int i * w))"
  using assms unfolding slide_inv_def
  by (cases "currentIndex s"; cases "maxIndex s"; cases "cardFullWidth s") auto

lemma slideToIndex_keeps_inv:
  assumes "slide_inv s"
  shows "slide_inv (slideToIndex (Num i) a s)"
proof (cases "isAnimating s")
  case True
  with assms show ?thesis by (simp add: slideToIndex_animating)
next
  case False
  from assms obtain k m w where "maxIndex s = Num m" "cardFullWidth s = Num w" "0 \<le> k" "k \<le> m"
    by (rule slide_inv_fields)
  with False show ?thesis
    by (intro slideToIndex_inv(4) [where m = m and w = w]) auto
qed

lemma loopReset_keeps_inv:
  assumes "loop_mode s" and "slide_inv s"
  shows "slide_inv (loopReset s)"
proof -
  from assms(2) obtain i m w where f: "currentIndex s = Num i" "maxIndex s = Num m"
    "cardFullWidth s = Num w" "0 \<le> i" "i \<le> m"
    "currentTranslate s = Num (- (real_of_int i * w))"
    "prevTranslate s = Num (- (real_of_int i * w))"
    by (rule slide_inv_fields)
  define c where "c = cardsToShow s"
  define n where "n = totalRealCards s"
  define j where "j = (if i \<le> c - 1 then n + c - (c - 1 - i)
                 else if i \<ge> n + c - (c - 1) then i - (n + c - (c - 1)) + (c - 1) else i)"
  from assms(1) f(2) have m: "m = n + c" and c: "1 \<le> c" "c < n"
    by (simp_all add: loop_mode_def c_def n_def)
  from f(4,5) m c have j: "0 \<le> j" "j \<le> m"
    by (auto simp: j_def)
  note r = loopReset_index [OF assms(1) f(1) f(3), folded c_def n_def, folded j_def]
  show ?thesis
  proof (cases "j = i")
    case True
    with r f j show ?thesis by (simp add: slide_inv_def)
  next
    case False
    with r f j show ?thesis by (simp add: slide_inv_def)
  qed
qed

text \<open>
  C8, as stated, fails: while the slider is animating, \<^verbatim>\<open>slideToIndex\<close> returns at
  once and \<^verbatim>\<open>currentIndex\<close> is not set to the clamped argument.
\<close>

theorem C8_animating_counterexample:
  "isAnimating (slideNext ready_slider) \<and> maxIndex (slideNext ready_slider) = Num 4 \<and>
   currentIndex (slideToIndex (Num 2) True (slideNext ready_slider)) \<noteq> Num (max 0 (min 2 4))"
  by (simp add: ready_slider_eq slideNext_def slideToIndex_def Let_def Math_max_def Math_min_def
      updateDots_def setSliderPosition_def setTimeout_def)

text \<open>
  C8, amended: while \<^verbatim>\<open>isAnimating\<close> is set, \<^verbatim>\<open>slideToIndex\<close> changes nothing.
  Otherwise, when \<^verbatim>\<open>maxIndex\<close> is a number that is not negative and \<^verbatim>\<open>cardFullWidth\<close>
  is a number, for every integer argument the synchronous part of \<^verbatim>\<open>slideToIndex\<close>
  sets \<^verbatim>\<open>currentIndex\<close> to the argument clamped into \<open>[0, maxIndex]\<close> and establishes
  \<open>currentTranslate = prevTranslate = -(currentIndex * cardFullWidth)\<close>.  In loop mode
  the deferred loop reset takes a \<^verbatim>\<open>currentIndex\<close> within \<open>[0, maxIndex]\<close> to one within
  \<open>[0, maxIndex]\<close> and re-establishes the translate equation whenever it moves the
  index.  So every slide operation that runs on a slider that is not animating
  establishes the invariant, and the invariant, once it holds, is kept by every slide
  operation.
\<close>

theorem C8_slide_invariant:
  "(isAnimating s \<longrightarrow> slideToIndex idx a s = s) \<and>
   (\<not> isAnimating s \<and> maxIndex s = Num m \<and> 0 \<le> m \<and> cardFullWidth s = Num w \<longrightarrow>
      currentIndex (slideToIndex (Num i) a s) = Num (max 0 (min i m)) \<and>
      currentTranslate (slideToIndex (Num i) a s) = Num (- (real_of_int (max 0 (min i m)) * w)) \<and>
      prevTranslate (slideToIndex (Num i) a s) = Num (- (real_of_int (max 0 (min i m)) * w)) \<and>
      slide_inv (slideToIndex (Num i) a s)) \<and>
   (loop_mode s \<and> maxIndex s = Num m \<and> cardFullWidth s = Num w \<and>
    currentIndex s = Num k \<and> 0 \<le> k \<and> k \<le> m \<longrightarrow>
      (\<exists>j. currentIndex (loopReset s) = Num j \<and> 0 \<le> j \<and> j \<le> m \<and>
           maxIndex (loopReset s) = Num m \<and>
           (j \<noteq> k \<longrightarrow> currentTranslate (loopReset s) = Num (- (real_of_int j * w)) \<and>
                     prevTranslate (loopReset s) = Num (- (real_of_int j * w))))) \<and>
   (\<not> isAnimating s \<and> maxIndex s = Num m \<and> 0 \<le> m \<and> cardFullWidth s = Num w \<and>
    currentIndex s = Num k \<longrightarrow>
      slide_inv (slidePrev s) \<and> slide_inv (slideNext s) \<and>
      slide_inv (slideToRealIndex r s) \<and> slide_inv (dragEnd s)) \<and>
   (slide_inv s \<longrightarrow>
      slide_inv (slideToIndex (Num i) a s) \<and> slide_inv (slidePrev s) \<and>
      slide_inv (slideNext s) \<and> slide_inv (slideToRealIndex r s) \<and> slide_inv (dragEnd s) \<and>
      (loop_mode s \<longrightarrow> slide_inv (loopReset s)))"
proof (intro conjI impI)
  show "isAnimating s \<Longrightarrow> slideToIndex idx a s = s"
    by (rule slideToIndex_animating)
next
  assume a: "\<not> isAnimating s \<and> maxIndex s = Num m \<and> 0 \<le> m \<and> cardFullWidth s = Num w"
  then show "currentIndex (slideToIndex (Num i) a s) = Num (max 0 (min i m))"
    and "currentTranslate (slideToIndex (Num i) a s) = Num (- (real_of_int (max 0 (min i m)) * w))"
    and "prevTranslate (slideToIndex (Num i) a s) = Num (- (real_of_int (max 0 (min i m)) * w))"
    and "slide_inv (slideToIndex (Num i) a s)"
    by (simp_all add: slideToIndex_inv)
next
  assume a: "loop_mode s \<and> maxIndex s = Num m \<and> cardFullWidth s = Num w \<and>
    currentIndex s = Num k \<and> 0 \<le> k \<and> k \<le> m"
  define c where "c = cardsToShow s"
  define n where "n = totalRealCards s"
  define j where "j = (if k \<le> c - 1 then n + c - (c - 1 - k)
                 else if k \<ge> n + c - (c - 1) then k - (n + c - (c - 1)) + (c - 1) else k)"
  from a have l: "loop_mode s" and ci: "currentIndex s = Num k" and w: "cardFullWidth s = Num w"
    and mi: "maxIndex s = Num m" and k: "0 \<le> k" "k \<le> m"
    by blast+
  from l mi have m: "m = n + c" and c: "1 \<le> c" "c < n"
    by (simp_all add: loop_mode_def c_def n_def)
  from k m c have j: "0 \<le> j" "j \<le> m"
    by (auto simp: j_def)
  note r = loopReset_index [OF l ci w, folded c_def n_def, folded j_def]
  from r j mi show "\<exists>j. currentIndex (loopReset s) = Num j \<and> 0 \<le> j \<and> j \<le> m \<and>
           maxIndex (loopReset s) = Num m \<and>
           (j \<noteq> k \<longrightarrow> currentTranslate (loopReset s) = Num (- (real_of_int j * w)) \<and>
                     prevTranslate (loopReset s) = Num (- (real_of_int j * w)))"
    by (intro exI [of _ j]) simp
next
  assume a: "\<not> isAnimating s \<and> maxIndex s = Num m \<and> 0 \<le> m \<and> cardFullWidth s = Num w \<and>
    currentIndex s = Num k"
  then have est: "slide_inv (slideToIndex (Num x) b s)" for x b
    by (intro slideToIndex_inv(4) [where m = m and w = w]) simp_all
  from a have est': "slide_inv (slideToIndex (Num x) b (s\<lparr>transition := t\<rparr>))" for x b t
    by (intro slideToIndex_inv(4) [where m = m and w = w]) simp_all
  from a show "slide_inv (slidePrev s)"
    by (simp add: slidePrev_def est)
  from a show "slide_inv (slideNext s)"
    by (simp add: slideNext_def est)
  show "slide_inv (slideToRealIndex r s)"
    by (simp add: slideToRealIndex_def est)
  from a show "slide_inv (dragEnd s)"
    by (simp add: dragEnd_def Let_def est')
next
  assume inv: "slide_inv s"
  from inv obtain ci where ci: "currentIndex s = Num ci"
    by (rule slide_inv_fields)
  show "slide_inv (slideToIndex (Num i) a s)"
    using inv by (rule slideToIndex_keeps_inv)
  show "slide_inv (slidePrev s)"
    using inv ci by (simp add: slidePrev_def slideToIndex_keeps_inv)
  show "slide_inv (slideNext s)"
    using inv ci by (simp add: slideNext_def slideToIndex_keeps_inv)
  show "slide_inv (slideToRealIndex r s)"
    using inv by (simp add: slideToRealIndex_def slideToIndex_keeps_inv)
  have "slide_inv (s\<lparr>transition := ''transform 0.3s ease''\<rparr>)"
    using inv by (simp add: slide_inv_transition)
  then show "slide_inv (dragEnd s)"
    using ci by (simp add: dragEnd_def Let_def slideToIndex_keeps_inv)
  show "loop_mode s \<Longrightarrow> slide_inv (loopReset s)"
    using inv by (simp add: loopReset_keeps_inv)
qed


lemmas slider_defs =
  slideNext_def slidePrev_def slideToRealIndex_def slideToIndex_def loopReset_def dragEnd_def
  updateDots_def setSliderPosition_def setTimeout_def clearTimeout_def fire_def
  forceResetGesture_def handleTouchStart_def handleTouchMove_def handleTouchEnd_def
  Math_max_def Math_min_def Math_abs_def Let_def

lemma first_card_slider_eq:
  "first_card_slider =
   \<lparr>cardsToShow = 1, autoSlide = False, slideInterval = 5000, loop = True,
    wrapper =
      [Card 2 True, Card 0 False, Card 1 False, Card 2 False, Card 0 True],
    transition = ''transform 0.3s ease'', transform = Some (Num (- 300)),
    dragging = False, prevArrow = True, nextArrow = True,
    dotsContainer = True, dots = Some [True, False, False],
    totalRealCards = 3, totalCards = Num 5, maxIndex = Num 4,
    cardFullWidth = Num 300, isDragging = False, isHorizontalSwipe = False,
    startX = 0, startY = 0, initialX = 0, currentTranslate = Num (- 300),
    prevTranslate = Num (- 300), currentIndex = Num 1, isAnimating = False,
    timers = [], mouseListeners = 0\<rparr>"
  by (simp add: first_card_slider_def ready_slider_eq slider_defs)

lemma second_swipe_eq:
  "second_swipe =
   \<lparr>cardsToShow = 1, autoSlide = False, slideInterval = 5000, loop = True,
    wrapper =
      [Card 2 True, Card 0 False, Card 1 False, Card 2 False, Card 0 True],
    transition = ''none'', transform = Some (Num (- 1400)), dragging = True,
    prevArrow = True, nextArrow = True, dotsContainer = True,
    dots = Some [True, False, False], totalRealCards = 3,
    totalCards = Num 5, maxIndex = Num 4, cardFullWidth = Num 300,
    isDragging = True, isHorizontalSwipe = True, startX = 500, startY = 100,
    initialX = 500, currentTranslate = Num (- 1400),
    prevTranslate = Num (- 1200), currentIndex = Num 4, isAnimating = False,
    timers = [(LoopReset, 300)], mouseListeners = 0\<rparr>"
  by (simp add: second_swipe_def swipe_left_def ready_slider_eq slider_defs)


lemma next_slider_fields:
  "isAnimating (slideNext ready_slider)" "maxIndex (slideNext ready_slider) = Num 4"
  "cardFullWidth (slideNext ready_slider) = Num 300"
  "currentIndex (slideNext ready_slider) = Num 4"
  "loop_mode (slideNext ready_slider)"
  by (simp_all add: ready_slider_eq slider_defs loop_mode_def)

theorem C8_slide_invariant_witness:
  "isAnimating (slideNext ready_slider) \<and>
   slideToIndex (Num 2) True (slideNext ready_slider) = slideNext ready_slider \<and>
   \<not> isAnimating ready_slider \<and> maxIndex ready_slider = Num 4 \<and>
   cardFullWidth ready_slider = Num 300 \<and>
   currentIndex (slideToIndex (Num 7) True ready_slider) = Num 4 \<and>
   currentTranslate (slideToIndex (Num 7) True ready_slider) = Num (- 1200) \<and>
   loop_mode (slideNext ready_slider) \<and> currentIndex (slideNext ready_slider) = Num 4 \<and>
   (\<exists>j. currentIndex (loopReset (slideNext ready_slider)) = Num j \<and> 0 \<le> j \<and> j \<le> 4) \<and>
   slide_inv ready_slider \<and> loop_mode ready_slider \<and>
   slide_inv (slidePrev ready_slider) \<and> slide_inv (loopReset ready_slider)"
proof -
  have r: "\<not> isAnimating ready_slider" "maxIndex ready_slider = Num 4"
    "cardFullWidth ready_slider = Num 300" "slide_inv ready_slider" "loop_mode ready_slider"
    by (simp_all add: ready_slider_eq slide_inv_def loop_mode_def)
  note n = next_slider_fields
  from C8_slide_invariant
         [where s = "slideNext ready_slider" and idx = "Num 2" and a = True and m = 4
            and w = 300 and k = 4] n
  have a: "slideToIndex (Num 2) True (slideNext ready_slider) = slideNext ready_slider"
    and b: "\<exists>j. currentIndex (loopReset (slideNext ready_slider)) = Num j \<and> 0 \<le> j \<and> j \<le> 4"
    by auto
  from C8_slide_invariant
         [where s = ready_slider and a = True and m = 4 and w = 300 and i = 7] r
  have c: "currentIndex (slideToIndex (Num 7) True ready_slider) = Num 4"
    and d: "currentTranslate (slideToIndex (Num 7) True ready_slider) = Num (- 1200)"
    and e: "slide_inv (slidePrev ready_slider)" "slide_inv (loopReset ready_slider)"
    by auto
  from r n a b c d e show ?thesis by blast
qed

lemma dragEnd_index:
  assumes "\<not> isAnimating s" and "maxIndex s = Num m" and "0 \<le> m" and "cardFullWidth s = Num w"
    and "currentIndex s = Num i" and "currentTranslate s = Num ct" and "prevTranslate s = Num pt"
  shows "currentIndex (dragEnd s) =
    Num (max 0 (min (if \<bar>ct - pt\<bar> > w / 3 then (if ct - pt < 0 then i + 1 else i - 1) else i) m))"
proof -
  let ?s1 = "s\<lparr>transition := ''transform 0.3s ease''\<rparr>"
  have s1: "\<not> isAnimating ?s1" "maxIndex ?s1 = Num m" "cardFullWidth ?s1 = Num w"
    using assms by simp_all
  note idx = slideToIndex_inv(1) [OF s1(1) s1(2) assms(3) s1(3)]
  show ?thesis
    using assms(4-7) by (simp add: dragEnd_def Let_def Math_abs_def idx)
qed

lemma handleTouchEnd_index:
  "currentIndex (handleTouchEnd s) =
     (if isDragging s \<and> \<not> isAnimating s then currentIndex (dragEnd s) else currentIndex s)"
  by (simp add: handleTouchEnd_def Let_def setTimeout_def clearTimeout_def)

lemma up_index:
  "currentIndex (up s) =
     (if isDragging s \<and> \<not> isAnimating s then currentIndex (dragEnd s) else currentIndex s)"
  by (simp add: up_def Let_def)

text \<open>
  C6, as stated, fails at the ends of the index range: in the middle of a second swipe
  to the left, begun on the last index before the loop-reset timer has fired, the drag
  has moved by 200 pixels, more than a third of the card width of 300, and yet the
  slider stays on index 4 when the drag ends.
\<close>

theorem C6_clamped_swipe_counterexample:
  "isDragging second_swipe \<and> \<not> isAnimating second_swipe \<and>
   lift2 (-) (currentTranslate second_swipe) (prevTranslate second_swipe) = Num (- 200) \<and>
   cardFullWidth second_swipe = Num 300 \<and> maxIndex second_swipe = Num 4 \<and>
   currentIndex second_swipe = Num 4 \<and>
   currentIndex (dragEnd second_swipe) = Num 4 \<and>
   currentIndex (slider_step (TouchEnd True) second_swipe) = Num 4"
  by (simp add: second_swipe_eq slider_defs)

text \<open>
  C6, amended: take a slider that is not animating, whose \<^verbatim>\<open>maxIndex\<close> is a number
  that is not negative, and whose \<^verbatim>\<open>cardFullWidth\<close>, \<^verbatim>\<open>currentIndex\<close>,
  \<^verbatim>\<open>currentTranslate\<close> and \<^verbatim>\<open>prevTranslate\<close> are numbers (as they are once
  \<^verbatim>\<open>setupInfiniteLoop\<close> has built the loop; a slider with no more cards than
  \<^verbatim>\<open>cardsToShow\<close>, whose \<^verbatim>\<open>maxIndex\<close> is never assigned, is left out).  When a drag
  ends on it, \<^verbatim>\<open>dragEnd\<close> asks \<^verbatim>\<open>slideToIndex\<close> for one index further in the swipe
  direction if and only if the absolute displacement \<open>currentTranslate -
  prevTranslate\<close> exceeds one third of \<^verbatim>\<open>cardFullWidth\<close> (a leftward drag asks for
  \<open>currentIndex + 1\<close>, any other for \<open>currentIndex - 1\<close>), and otherwise for the
  unchanged \<^verbatim>\<open>currentIndex\<close>; the index asked for is clamped into \<open>[0, maxIndex]\<close>.
  So strictly inside the range the slider moves exactly one index if and only if the
  threshold is exceeded, and snaps back otherwise; at index 0 and at \<^verbatim>\<open>maxIndex\<close> an
  outward swipe leaves the index where it is.  On every slider, the touch-end and
  mouse-up listeners call \<^verbatim>\<open>dragEnd\<close> only for a drag in progress while the slider
  is not animating, and leave the index alone otherwise.
\<close>

theorem C6_drag_end:
  "(\<not> isAnimating s \<and> maxIndex s = Num m \<and> 0 \<le> m \<and> cardFullWidth s = Num w \<and>
    currentIndex s = Num i \<and> currentTranslate s = Num ct \<and> prevTranslate s = Num pt \<longrightarrow>
      currentIndex (dragEnd s) =
        Num (max 0 (min (if \<bar>ct - pt\<bar> > w / 3 then (if ct - pt < 0 then i + 1 else i - 1)
                         else i) m)) \<and>
      (0 < i \<and> i < m \<longrightarrow>
         (currentIndex (dragEnd s) = Num (i + 1)) = (\<bar>ct - pt\<bar> > w / 3 \<and> ct - pt < 0) \<and>
         (currentIndex (dragEnd s) = Num (i - 1)) = (\<bar>ct - pt\<bar> > w / 3 \<and> \<not> ct - pt < 0) \<and>
         (currentIndex (dragEnd s) = Num i) = (\<not> \<bar>ct - pt\<bar> > w / 3))) \<and>
   currentIndex (handleTouchEnd s) =
     (if isDragging s \<and> \<not> isAnimating s then currentIndex (dragEnd s) else currentIndex s) \<and>
   currentIndex (up s) =
     (if isDragging s \<and> \<not> isAnimating s then currentIndex (dragEnd s) else currentIndex s)"
proof (intro conjI impI)
  assume a: "\<not> isAnimating s \<and> maxIndex s = Num m \<and> 0 \<le> m \<and> cardFullWidth s = Num w \<and>
    currentIndex s = Num i \<and> currentTranslate s = Num ct \<and> prevTranslate s = Num pt"
  then have d: "currentIndex (dragEnd s) =
        Num (max 0 (min (if \<bar>ct - pt\<bar> > w / 3 then (if ct - pt < 0 then i + 1 else i - 1)
                         else i) m))"
    by (intro dragEnd_index) simp_all
  then show "currentIndex (dragEnd s) =
        Num (max 0 (min (if \<bar>ct - pt\<bar> > w / 3 then (if ct - pt < 0 then i + 1 else i - 1)
                         else i) m))" .
  assume b: "0 < i \<and> i < m"
  from b show "(currentIndex (dragEnd s) = Num (i + 1)) = (\<bar>ct - pt\<bar> > w / 3 \<and> ct - pt < 0)"
    unfolding d by auto
  from b show "(currentIndex (dragEnd s) = Num (i - 1)) = (\<bar>ct - pt\<bar> > w / 3 \<and> \<not> ct - pt < 0)"
    unfolding d by auto
  from b show "(currentIndex (dragEnd s) = Num i) = (\<not> \<bar>ct - pt\<bar> > w / 3)"
    unfolding d by auto
next
  show "currentIndex (handleTouchEnd s) =
     (if isDragging s \<and> \<not> isAnimating s then currentIndex (dragEnd s) else currentIndex s)"
    by (rule handleTouchEnd_index)
  show "currentIndex (up s) =
     (if isDragging s \<and> \<not> isAnimating s then currentIndex (dragEnd s) else currentIndex s)"
    by (rule up_index)
qed


theorem C6_drag_end_witness:
  "\<not> isAnimating (ready_slider\<lparr>isDragging := True, currentTranslate := Num (- 1100)\<rparr>) \<and>
   maxIndex (ready_slider\<lparr>isDragging := True, currentTranslate := Num (- 1100)\<rparr>) = Num 4 \<and>
   cardFullWidth (ready_slider\<lparr>isDragging := True, currentTranslate := Num (- 1100)\<rparr>) = Num 300 \<and>
   currentIndex (ready_slider\<lparr>isDragging := True, currentTranslate := Num (- 1100)\<rparr>) = Num 3 \<and>
   prevTranslate (ready_slider\<lparr>isDragging := True, currentTranslate := Num (- 1100)\<rparr>) = Num (- 900) \<and>
   (0::int) < 3 \<and> (3::int) < 4 \<and> \<bar>- 1100 - (- 900)\<bar> > (300::real) / 3 \<and>
   currentIndex (dragEnd (ready_slider\<lparr>isDragging := True, currentTranslate := Num (- 1100)\<rparr>))
     = Num 4 \<and>
   currentIndex (handleTouchEnd (ready_slider\<lparr>isDragging := True, currentTranslate := Num (- 1100)\<rparr>))
     = Num 4"
proof -
  let ?s = "ready_slider\<lparr>isDragging := True, currentTranslate := Num (- 1100)\<rparr>"
  have h: "\<not> isAnimating ?s" "maxIndex ?s = Num 4" "cardFullWidth ?s = Num 300"
    "currentIndex ?s = Num 3" "prevTranslate ?s = Num (- 900)" "isDragging ?s"
    "currentTranslate ?s = Num (- 1100)"
    by (simp_all add: ready_slider_eq)
  from C6_drag_end [where s = ?s and m = 4 and w = 300 and i = 3 and ct = "- 1100" and pt = "- 900"] h
  have "currentIndex (dragEnd ?s) = Num 4" and "currentIndex (handleTouchEnd ?s) = Num 4"
    by simp_all
  with h show ?thesis by simp
qed

text \<open>
  C1 fails on the code.  The slider of three real cards rests on the first real card
  (index 1, card 0 on screen, dot 0 active).  \<^verbatim>\<open>slidePrev\<close> slides to index 0, the clone
  of the last card: card 2 is on screen and dot 2 is active.  The loop-reset timer then
  jumps to index 4, the clone of the first card: card 0 is on screen again, while dot 2
  stays active.  In the other direction, \<^verbatim>\<open>slideNext\<close> from the last real card (index
  3) slides to index 4, showing card 0, and the loop reset jumps to index 0, showing
  card 2.  The index that shows the same card would be 3 in the first case and 1 in the
  second.
\<close>

theorem C1_loop_reset_shows_another_card:
  "wrapper first_card_slider
     = [Card 2 True, Card 0 False, Card 1 False, Card 2 False, Card 0 True] \<and>
   currentIndex first_card_slider = Num 1 \<and> visible first_card_slider = [0] \<and>
   active_dots first_card_slider = [0] \<and> \<not> isAnimating first_card_slider \<and>
   currentIndex (slidePrev first_card_slider) = Num 0 \<and>
   visible (slidePrev first_card_slider) = [2] \<and>
   active_dots (slidePrev first_card_slider) = [2] \<and>
   currentIndex (fire LoopReset (slidePrev first_card_slider)) = Num 4 \<and>
   transition (fire LoopReset (slidePrev first_card_slider)) = ''none'' \<and>
   visible (fire LoopReset (slidePrev first_card_slider)) = [0] \<and>
   active_dots (fire LoopReset (slidePrev first_card_slider)) = [2] \<and>
   currentIndex ready_slider = Num 3 \<and> visible ready_slider = [2] \<and>
   currentIndex (slideNext ready_slider) = Num 4 \<and> visible (slideNext ready_slider) = [0] \<and>
   currentIndex (fire LoopReset (slideNext ready_slider)) = Num 0 \<and>
   visible (fire LoopReset (slideNext ready_slider)) = [2]"
  by (simp add: first_card_slider_eq ready_slider_eq slider_defs visible_def active_dots_def
      upt_rec)







end
